theory Spec2Isabelle
  imports Complex_Main "HOL-Library.Sublist" "HOL-Library.Multiset"
begin

section \<open>Python strings\<close>

text \<open>
  A Python \<open>str\<close> is modelled as a \<open>string\<close>: a list of code points, of which
  \<open>char\<close> holds those below 256. The functions below are the \<open>str\<close> methods the
  program calls, on that range.
\<close>

text \<open>\<open>str.isspace\<close> of one character: what \<open>strip()\<close> and \<open>split()\<close> treat as
  whitespace (TAB..CR, FS..US, space, NEL and the no-break space).\<close>

definition is_space :: "char \<Rightarrow> bool" where
  "is_space c = (let n = (of_char c :: nat)
                 in (9 \<le> n \<and> n \<le> 13) \<or> (28 \<le> n \<and> n \<le> 32) \<or> n = 133 \<or> n = 160)"

text \<open>\<open>s.strip(chars)\<close>: leading and trailing characters of the set removed.\<close>

definition strip_chars :: "(char \<Rightarrow> bool) \<Rightarrow> string \<Rightarrow> string" where
  "strip_chars P s = rev (dropWhile P (rev (dropWhile P s)))"

text \<open>\<open>s.strip()\<close>.\<close>

definition strip :: "string \<Rightarrow> string" where
  "strip s = strip_chars is_space s"

text \<open>The argument of \<open>strip('"\'')\<close>: the double and the single quote.\<close>

definition is_quote :: "char \<Rightarrow> bool" where
  "is_quote c = (c = CHR 0x22 \<or> c = CHR 0x27)"

text \<open>\<open>s.split()\<close>: the maximal runs of non-whitespace characters; \<open>w\<close> is the word
  being read.\<close>

primrec split_aux :: "string \<Rightarrow> string \<Rightarrow> string list" where
  "split_aux w [] = (if w = [] then [] else [w])"
| "split_aux w (c # cs) =
     (if is_space c then (if w = [] then split_aux [] cs else w # split_aux [] cs)
      else split_aux (w @ [c]) cs)"

definition split :: "string \<Rightarrow> string list" where
  "split s = split_aux [] s"

text \<open>\<open>s.split(sep)\<close> for a one-character separator: every separator ends a piece, so
  the pieces of the empty string are \<open>['']\<close>.\<close>

primrec split_on_aux :: "char \<Rightarrow> string \<Rightarrow> string \<Rightarrow> string list" where
  "split_on_aux sep w [] = [w]"
| "split_on_aux sep w (c # cs) =
     (if c = sep then w # split_on_aux sep [] cs else split_on_aux sep (w @ [c]) cs)"

definition split_on :: "char \<Rightarrow> string \<Rightarrow> string list" where
  "split_on sep s = split_on_aux sep [] s"

text \<open>\<open>sep.join(xs)\<close>.\<close>

fun join :: "string \<Rightarrow> string list \<Rightarrow> string" where
  "join sep [] = []"
| "join sep [x] = x"
| "join sep (x # y # ys) = x @ sep @ join sep (y # ys)"

text \<open>\<open>s.startswith(p)\<close>.\<close>

definition startswith :: "string \<Rightarrow> string \<Rightarrow> bool" where
  "startswith s p = (take (length p) s = p)"

text \<open>\<open>str(n)\<close> of an integer: its decimal digits, with a minus sign when negative.\<close>

definition digit_char :: "nat \<Rightarrow> char" where
  "digit_char d = char_of (48 + d)"

fun digits :: "nat \<Rightarrow> string" where
  "digits n = (if n < 10 then [digit_char n] else digits (n div 10) @ [digit_char (n mod 10)])"

declare digits.simps [simp del]

definition str_int :: "int \<Rightarrow> string" where
  "str_int i = (if i < 0 then CHR ''-'' # digits (nat (- i)) else digits (nat i))"

text \<open>The slice \<open>xs[:n]\<close>: a negative \<open>n\<close> counts from the end.\<close>

definition slice_to :: "int \<Rightarrow> 'a list \<Rightarrow> 'a list" where
  "slice_to n xs = (if n < 0 then take (nat (int (length xs) + n)) xs else take (nat n) xs)"

section \<open>Records and exceptions\<close>

text \<open>
  The value of the key \<open>days_since_discovery\<close> as \<open>response.json()\<close> gives it: \<open>None\<close>
  for a JSON null, a number, or a \<open>str\<close>. A number is an \<open>int\<close>, a \<open>bool\<close> or a
  \<open>float\<close>, which Python compares with one another by their values; a \<open>float\<close> is
  also \<open>inf\<close>, \<open>-inf\<close> or \<open>nan\<close>, which \<open>json\<close> reads from \<open>Infinity\<close>,
  \<open>-Infinity\<close>, \<open>NaN\<close> and from a number beyond the range of a \<open>float\<close>, such as
  \<open>1e999\<close>. An array or an object as the value of this key is not represented.
\<close>

datatype pyfloat = Fin real | PInf | NInf | NaN

datatype pyvalue = PyNone | PyNum pyfloat | PyStr string

text \<open>
  A project is the dictionary the items endpoint returns for one item. The program reads
  the five keys below and writes \<open>summary\<close>; a key that is absent is \<open>None\<close>. The
  values of the four keys the program reads as text are of the type its string
  operations are written for; the value of \<open>days_since_discovery\<close>, which the program
  only compares, is any of the values above, so \<open>Some PyNone\<close> is a key that is present
  with the value null. Every other key is kept in the record's extension.
\<close>

record project =
  project_name :: "string option"
  handle :: "string option"
  description :: "string option"
  days_since_discovery :: "pyvalue option"
  summary :: "string option"

text \<open>The exception classes the program tells apart, each with its message \<open>str(e)\<close>:
  \<open>requests.exceptions.Timeout\<close>, any other \<open>RequestException\<close>, and any other
  \<open>Exception\<close>.\<close>

datatype exn = Timeout string | RequestException string | OtherException string

section \<open>Record source\<close>

text \<open>What \<open>get_latest_projects\<close> raises: the exception of the request, which it does not
  catch, or the \<open>TypeError\<close> of a comparison inside \<open>sorted\<close>.\<close>

datatype raised = Raised exn | TypeError

text \<open>\<open>a < b\<close> on two numbers: every comparison with \<open>nan\<close> is false.\<close>

fun float_lt :: "pyfloat \<Rightarrow> pyfloat \<Rightarrow> bool" where
  "float_lt (Fin a) (Fin b) = (a < b)"
| "float_lt (Fin a) PInf = True"
| "float_lt NInf (Fin b) = True"
| "float_lt NInf PInf = True"
| "float_lt a b = False"

text \<open>\<open>a < b\<close> on two strings: lexicographic, by code point.\<close>

fun str_lt :: "string \<Rightarrow> string \<Rightarrow> bool" where
  "str_lt [] [] = False"
| "str_lt [] (b # bs) = True"
| "str_lt (a # as) [] = False"
| "str_lt (a # as) (b # bs) =
     ((of_char a :: nat) < of_char b \<or> (a = b \<and> str_lt as bs))"

text \<open>\<open>a < b\<close> on two values: \<open>None\<close> is the \<open>TypeError\<close> that Python raises when
  an operand is \<open>None\<close> or when one operand is a number and the other a string.\<close>

fun py_lt :: "pyvalue \<Rightarrow> pyvalue \<Rightarrow> bool option" where
  "py_lt (PyNum a) (PyNum b) = Some (float_lt a b)"
| "py_lt (PyStr a) (PyStr b) = Some (str_lt a b)"
| "py_lt a b = None"

text \<open>The sort key \<open>x.get('days_since_discovery', float('inf'))\<close>: the value of the
  key, whatever it is, and \<open>inf\<close> only when the key is absent.\<close>

definition recency_key :: "'a project_scheme \<Rightarrow> pyvalue" where
  "recency_key x = (case days_since_discovery x of None \<Rightarrow> PyNum PInf | Some v \<Rightarrow> v)"

text \<open>
  \<open>sorted(xs, key=key)\<close>: a stable sort that compares the keys with \<open><\<close> only, and that
  a comparison which raises ends. The model places the items one by one, from the last to
  the first, each before the first item already placed whose key is not below its own.
  Where \<open><\<close> is a strict total order on the keys, as it is on numbers other than
  \<open>nan\<close>, this is the list that every stable sort returns (\<open>sorted_py_sort_key\<close> below).
  With two or more items \<open>sorted\<close> compares every item at least once, and so does the
  model (\<open>sorted_py_null\<close> below). With a \<open>nan\<close> among the keys \<open><\<close> is not an order and
  the list returned depends on the comparisons that are made; on a list of two or three
  items that is already a run, such as the one of the example below, \<open>sorted\<close> makes the
  comparisons of neighbours, all false, and returns the list as it is.
\<close>

fun insert_sorted :: "('a \<Rightarrow> pyvalue) \<Rightarrow> 'a \<Rightarrow> 'a list \<Rightarrow> 'a list option" where
  "insert_sorted key x [] = Some [x]"
| "insert_sorted key x (y # ys) =
     (case py_lt (key y) (key x) of
        None \<Rightarrow> None
      | Some True \<Rightarrow> map_option (\<lambda>zs. y # zs) (insert_sorted key x ys)
      | Some False \<Rightarrow> Some (x # y # ys))"

fun sorted_py :: "('a \<Rightarrow> pyvalue) \<Rightarrow> 'a list \<Rightarrow> 'a list option" where
  "sorted_py key [] = Some []"
| "sorted_py key (x # xs) =
     (case sorted_py key xs of None \<Rightarrow> None | Some ys \<Rightarrow> insert_sorted key x ys)"

text \<open>
  \<open>get_latest_projects\<close>: \<open>fetched\<close> is what \<open>get_new_projects()\<close> did, the items of the
  response or the exception of the request, which is not caught here; \<open>cnt\<close> is the
  parameter \<open>count\<close>.
\<close>

definition get_latest_projects ::
  "(exn + 'a project_scheme list) \<Rightarrow> int \<Rightarrow> raised + 'a project_scheme list" where
  "get_latest_projects fetched cnt =
     (case fetched of
        Inl e \<Rightarrow> Inl (Raised e)
      | Inr projects \<Rightarrow>
          (case sorted_py recency_key projects of
             None \<Rightarrow> Inl TypeError
           | Some sorted_projects \<Rightarrow> Inr (slice_to cnt sorted_projects)))"

section \<open>Summarization engine\<close>

text \<open>
  The text-generation service is outside the program: \<open>svc k prompt\<close> is what the
  \<open>k\<close>-th call of \<open>generate_content\<close> in a run does on \<open>prompt\<close>. It raises, or it
  answers with a response whose \<open>text\<close> is a string or \<open>None\<close>. The summarizer's effects
  are the calls it has made and the times it has slept for \<open>RATE_LIMIT_DELAY\<close>.
\<close>

type_synonym service = "nat \<Rightarrow> string \<Rightarrow> exn + string option"

record gemini =
  calls :: nat
  slept :: nat

definition generate_content ::
  "service \<Rightarrow> gemini \<Rightarrow> string \<Rightarrow> (exn + string option) \<times> gemini" where
  "generate_content svc st prompt = (svc (calls st) prompt, st\<lparr>calls := Suc (calls st)\<rparr>)"

definition time_sleep :: "gemini \<Rightarrow> gemini" where
  "time_sleep st = st\<lparr>slept := Suc (slept st)\<rparr>"

text \<open>\<open>response.text.strip()\<close>: an \<open>AttributeError\<close> when the text is \<open>None\<close>.\<close>

definition text_strip :: "string option \<Rightarrow> exn + string" where
  "text_strip t =
     (case t of
        None \<Rightarrow> Inl (OtherException ''AttributeError'')
      | Some s \<Rightarrow> Inr (strip s))"

abbreviation NL :: string where
  "NL \<equiv> [CHR 0x0A]"

definition description_prompt :: "string \<Rightarrow> int \<Rightarrow> string" where
  "description_prompt desc max_words =
     ''Summarize this Web3 project description in '' @ str_int max_words @ '' words or less.'' @ NL
     @ ''Extract the key value proposition. Be concise. No quotes or explanations.'' @ NL
     @ NL
     @ ''Description: '' @ desc @ NL
     @ NL
     @ ''Summary:''"

text \<open>
  \<open>summarize_description\<close>; \<open>desc\<close> is its parameter \<open>description\<close>. The \<open>try\<close> block
  is the call and the two \<open>strip\<close>s; whatever it raises is caught, and the handler
  truncates the original description.
\<close>

definition summarize_description ::
  "service \<Rightarrow> gemini \<Rightarrow> string \<Rightarrow> int \<Rightarrow> (exn + string) \<times> gemini" where
  "summarize_description svc st desc max_words =
     (if desc = [] \<or> length (strip desc) < 20
      then (Inr (if desc \<noteq> [] then strip desc else []), st)
      else
        (let prompt = description_prompt desc max_words;
             (reply, st') = generate_content svc st prompt;
             attempt = (case reply of
                          Inl e \<Rightarrow> Inl e
                        | Inr response_text \<Rightarrow>
                            (case text_strip response_text of
                               Inl e \<Rightarrow> Inl e
                             | Inr s \<Rightarrow> Inr (strip_chars is_quote s)))
         in case attempt of
              Inr s \<Rightarrow> (Inr s, st')
            | Inl e \<Rightarrow>
                (let words = slice_to max_words (split desc)
                 in (Inr (if int (length (split desc)) > max_words
                          then join '' '' words @ ''...''
                          else desc), st'))))"

text \<open>\<open>_build_batch_prompt\<close>; the loop runs over \<open>enumerate(projects, 1)\<close>.\<close>

fun batch_prompt_lines :: "int \<Rightarrow> 'a project_scheme list \<Rightarrow> string \<Rightarrow> string" where
  "batch_prompt_lines i [] prompt = prompt"
| "batch_prompt_lines i (project # rest) prompt =
     (let name = (case project_name project of None \<Rightarrow> ''Unknown'' | Some v \<Rightarrow> v);
          desc = (case description project of None \<Rightarrow> ''No description'' | Some v \<Rightarrow> v)
      in batch_prompt_lines (i + 1) rest
           (prompt @ str_int i @ ''. '' @ name @ '': '' @ desc @ NL))"

definition build_batch_prompt :: "'a project_scheme list \<Rightarrow> int \<Rightarrow> string" where
  "build_batch_prompt projects max_words =
     (let prompt =
            ''Summarize each Web3 project description below in '' @ str_int max_words
              @ '' words or less.'' @ NL
            @ ''Extract the key value proposition for each. Be concise.'' @ NL
            @ ''Return ONLY the summaries, one per line, numbered 1-''
              @ str_int (int (length projects)) @ ''.'' @ NL
            @ NL;
          prompt = batch_prompt_lines 1 projects prompt
      in prompt @ NL @ ''Summaries (one per line, numbered):'')"

text \<open>
  \<open>_parse_batch_response\<close>. \<open>numbering c n\<close> is the list
  \<open>[f"{i}c" for i in range(1, n + 1)]\<close>, and \<open>remove_numbering\<close> one of the three
  loops over such a list (\<open>pre\<close> is its variable \<open>prefix\<close>): the first prefix the line
  starts with is cut off, and the loop breaks.
\<close>

definition numbering :: "char \<Rightarrow> int \<Rightarrow> string list" where
  "numbering c expected_count = map (\<lambda>i. str_int i @ [c]) [1..expected_count]"

fun remove_numbering :: "string list \<Rightarrow> string \<Rightarrow> string" where
  "remove_numbering [] line = line"
| "remove_numbering (pre # rest) line =
     (if startswith line pre then strip (drop (length pre) line)
      else remove_numbering rest line)"

fun parse_lines :: "int \<Rightarrow> string list \<Rightarrow> string list \<Rightarrow> string list" where
  "parse_lines expected_count [] summaries = summaries"
| "parse_lines expected_count (l # lines) summaries =
     (let line = strip l
      in if line = [] then parse_lines expected_count lines summaries
         else
           (let line = remove_numbering (numbering (CHR ''.'') expected_count) line;
                line = remove_numbering (numbering (CHR '')'') expected_count) line;
                line = remove_numbering (numbering (CHR '':'') expected_count) line;
                line = strip_chars is_quote line
            in if line \<noteq> [] then parse_lines expected_count lines (summaries @ [line])
               else parse_lines expected_count lines summaries))"

definition parse_batch_response :: "string \<Rightarrow> int \<Rightarrow> string list" where
  "parse_batch_response response_text expected_count =
     parse_lines expected_count (split_on (CHR 0x0A) (strip response_text)) []"

text \<open>
  The two loops of \<open>summarize_projects\<close>. Each mutates the dictionaries of the list in
  place, so each returns the list as it stands when the loop ends or raises, with the
  exception raised if any. \<open>i\<close> is the index of \<open>enumerate(projects)\<close>.
\<close>

definition get_description :: "'a project_scheme \<Rightarrow> string" where
  "get_description project = (case description project of None \<Rightarrow> [] | Some d \<Rightarrow> d)"

fun batch_loop ::
  "service \<Rightarrow> int \<Rightarrow> string list \<Rightarrow> nat \<Rightarrow> 'a project_scheme list \<Rightarrow> gemini
     \<Rightarrow> exn option \<times> 'a project_scheme list \<times> gemini" where
  "batch_loop svc max_words summaries i [] st = (None, [], st)"
| "batch_loop svc max_words summaries i (project # rest) st =
     (if i < length summaries \<and> summaries ! i \<noteq> []
      then (case batch_loop svc max_words summaries (Suc i) rest st of
              (raised, rest', st') \<Rightarrow>
                (raised, project\<lparr>summary := Some (summaries ! i)\<rparr> # rest', st'))
      else (case summarize_description svc st (get_description project) max_words of
              (Inl e, st') \<Rightarrow> (Some e, project # rest, st')
            | (Inr s, st') \<Rightarrow>
                (case batch_loop svc max_words summaries (Suc i) rest st' of
                   (raised, rest', st'') \<Rightarrow>
                     (raised, project\<lparr>summary := Some s\<rparr> # rest', st''))))"

fun individual_loop ::
  "service \<Rightarrow> int \<Rightarrow> nat \<Rightarrow> 'a project_scheme list \<Rightarrow> gemini
     \<Rightarrow> exn option \<times> 'a project_scheme list \<times> gemini" where
  "individual_loop svc max_words i [] st = (None, [], st)"
| "individual_loop svc max_words i (project # rest) st =
     (let st = (if i > 0 then time_sleep st else st)
      in case summarize_description svc st (get_description project) max_words of
           (Inl e, st') \<Rightarrow> (Some e, project # rest, st')
         | (Inr s, st') \<Rightarrow>
             (case individual_loop svc max_words (Suc i) rest st' of
                (raised, rest', st'') \<Rightarrow>
                  (raised, project\<lparr>summary := Some s\<rparr> # rest', st'')))"

text \<open>
  \<open>summarize_projects\<close>. The \<open>try\<close> block is the batch call, the parse of its text (an
  \<open>AttributeError\<close> when the text is \<open>None\<close>) and the first loop; the handler is the
  second loop, and what it raises is not caught.
\<close>

definition summarize_projects ::
  "service \<Rightarrow> gemini \<Rightarrow> 'a project_scheme list \<Rightarrow> int
     \<Rightarrow> (exn + 'a project_scheme list) \<times> gemini" where
  "summarize_projects svc st projects max_words =
     (let prompt = build_batch_prompt projects max_words;
          (reply, st1) = generate_content svc st prompt;
          (raised, projects1, st2) =
             (case reply of
                Inl e \<Rightarrow> (Some e, projects, st1)
              | Inr None \<Rightarrow> (Some (OtherException ''AttributeError''), projects, st1)
              | Inr (Some response_text) \<Rightarrow>
                  (let summaries = parse_batch_response response_text (int (length projects))
                   in batch_loop svc max_words summaries 0 projects st1))
      in case raised of
           None \<Rightarrow> (Inr projects1, st2)
         | Some e \<Rightarrow>
             (case individual_loop svc max_words 0 projects1 st2 of
                (None, projects2, st3) \<Rightarrow> (Inr projects2, st3)
              | (Some e', projects2, st3) \<Rightarrow> (Inl e', st3)))"

section \<open>Dates and times\<close>

text \<open>
  A \<open>datetime\<close> of Python's \<open>datetime\<close> module, and the module's arithmetic on the
  proleptic Gregorian calendar: day 1 is the first of January of year 1, and
  \<open>ymd2ord\<close> and \<open>ord2ymd\<close> go between a date and its day number.
\<close>

record datetime =
  year :: int
  month :: int
  day :: int
  hour :: int
  minute :: int
  second :: int
  microsecond :: int

definition MAXORDINAL :: int where
  "MAXORDINAL = 3652059"

definition DAYS_IN_MONTH :: "int list" where
  "DAYS_IN_MONTH = [- 1, 31, 28, 31, 30, 31, 30, 31, 31, 30, 31, 30, 31]"

definition DAYS_BEFORE_MONTH :: "int list" where
  "DAYS_BEFORE_MONTH = [- 1, 0, 31, 59, 90, 120, 151, 181, 212, 243, 273, 304, 334]"

definition is_leap :: "int \<Rightarrow> bool" where
  "is_leap y = (y mod 4 = 0 \<and> (y mod 100 \<noteq> 0 \<or> y mod 400 = 0))"

definition days_before_year :: "int \<Rightarrow> int" where
  "days_before_year y = (let z = y - 1 in z * 365 + z div 4 - z div 100 + z div 400)"

definition days_in_month :: "int \<Rightarrow> int \<Rightarrow> int" where
  "days_in_month y m = (if m = 2 \<and> is_leap y then 29 else DAYS_IN_MONTH ! nat m)"

definition days_before_month :: "int \<Rightarrow> int \<Rightarrow> int" where
  "days_before_month y m = DAYS_BEFORE_MONTH ! nat m + (if m > 2 \<and> is_leap y then 1 else 0)"

definition ymd2ord :: "int \<Rightarrow> int \<Rightarrow> int \<Rightarrow> int" where
  "ymd2ord y m d = days_before_year y + days_before_month y m + d"

definition ord2ymd :: "int \<Rightarrow> int \<times> int \<times> int" where
  "ord2ymd ordinal =
     (let n = ordinal - 1;
          n400 = n div 146097; n = n mod 146097;
          y = n400 * 400 + 1;
          n100 = n div 36524; n = n mod 36524;
          n4 = n div 1461; n = n mod 1461;
          n1 = n div 365; n = n mod 365;
          y = y + n100 * 100 + n4 * 4 + n1
      in if n1 = 4 \<or> n100 = 4 then (y - 1, 12, 31)
         else
           (let leapyear = (n1 = 3 \<and> (n4 \<noteq> 24 \<or> n100 = 3));
                m = (n + 50) div 32;
                preceding = DAYS_BEFORE_MONTH ! nat m + (if m > 2 \<and> leapyear then 1 else 0)
            in if preceding > n
               then (let m = m - 1;
                         preceding = preceding
                           - (DAYS_IN_MONTH ! nat m + (if m = 2 \<and> leapyear then 1 else 0))
                     in (y, m, n - preceding + 1))
               else (y, m, n - preceding + 1)))"

text \<open>
  \<open>dt + timedelta(hours=h)\<close>: the sum is taken on the day number and the seconds of
  the day, and is an \<open>OverflowError\<close> when its day number is not one of a year from 1
  to 9999. (A delay too large for a \<open>timedelta\<close> is an \<open>OverflowError\<close> as well; the
  message of the exception is written as that of the range check in both cases.)
\<close>

definition add_hours :: "datetime \<Rightarrow> int \<Rightarrow> exn + datetime" where
  "add_hours dt h =
     (let total = hour dt * 3600 + minute dt * 60 + second dt + h * 3600;
          days = ymd2ord (year dt) (month dt) (day dt) + total div 86400;
          seconds = total mod 86400
      in if 0 < days \<and> days \<le> MAXORDINAL
         then (let (y, m, d) = ord2ymd days;
                   hh = seconds div 3600;
                   rem = seconds mod 3600
               in Inr \<lparr>year = y, month = m, day = d, hour = hh, minute = rem div 60,
                        second = rem mod 60, microsecond = microsecond dt\<rparr>)
         else Inl (OtherException ''date value out of range''))"

text \<open>\<open>s.zfill(w)\<close>, and the two \<open>strftime\<close> formats of the program:
  \<open>%Y-%m-%dT%H:%M:%S+08:00\<close> (a year of four digits, the other fields of two) and
  \<open>%b %d\<close> (the English month abbreviation of the C locale).\<close>

definition zfill :: "nat \<Rightarrow> string \<Rightarrow> string" where
  "zfill w s = replicate (w - length s) (CHR ''0'') @ s"

definition strftime_iso :: "datetime \<Rightarrow> string" where
  "strftime_iso dt =
     zfill 4 (str_int (year dt)) @ ''-'' @ zfill 2 (str_int (month dt)) @ ''-''
     @ zfill 2 (str_int (day dt)) @ ''T'' @ zfill 2 (str_int (hour dt)) @ '':''
     @ zfill 2 (str_int (minute dt)) @ '':'' @ zfill 2 (str_int (second dt)) @ ''+08:00''"

definition MONTH_ABBR :: "string list" where
  "MONTH_ABBR = [''Jan'', ''Feb'', ''Mar'', ''Apr'', ''May'', ''Jun'',
                 ''Jul'', ''Aug'', ''Sep'', ''Oct'', ''Nov'', ''Dec'']"

definition strftime_b_d :: "datetime \<Rightarrow> string" where
  "strftime_b_d dt = MONTH_ABBR ! nat (month dt - 1) @ '' '' @ zfill 2 (str_int (day dt))"

section \<open>Message formatter\<close>

text \<open>
  \<open>format_tweet\<close>; \<open>now\<close> is what \<open>datetime.now()\<close> returns, the local date and time.
  The loop runs over \<open>enumerate(projects, 1)\<close> and appends to \<open>lines\<close>; \<open>hdl\<close> and \<open>summ\<close>
  are its variables \<open>handle\<close> and \<open>summary\<close>.
\<close>

fun format_lines :: "int \<Rightarrow> 'a project_scheme list \<Rightarrow> string list \<Rightarrow> string list" where
  "format_lines i [] lines = lines"
| "format_lines i (project # rest) lines =
     (let name = (case project_name project of None \<Rightarrow> ''Unknown'' | Some v \<Rightarrow> v);
          hdl = (case handle project of None \<Rightarrow> [] | Some v \<Rightarrow> v);
          summ = (case summary project of None \<Rightarrow> [] | Some v \<Rightarrow> v);
          line = (if hdl \<noteq> [] then str_int i @ '' '' @ name @ '' (@'' @ hdl @ '')''
                  else str_int i @ '' '' @ name);
          line = (if summ \<noteq> [] then line @ '': '' @ summ else line)
      in format_lines (i + 1) rest (lines @ [line]))"

definition format_tweet :: "datetime \<Rightarrow> 'a project_scheme list \<Rightarrow> string" where
  "format_tweet now projects =
     (let today = strftime_b_d now;
          lines = [''Early web3 projects ('' @ today @ '')'']
      in join (NL @ NL) (format_lines 1 projects lines))"

section \<open>Publish scheduler\<close>

text \<open>
  A JSON value as \<open>response.json()\<close> returns it: \<open>None\<close>, a \<open>bool\<close>, an \<open>int\<close>, a
  \<open>float\<close>, a \<open>str\<close>, a \<open>list\<close>, or a \<open>dict\<close> given by its items.
\<close>

datatype json =
  JNull | JBool bool | JInt int | JFloat real | JStr string
  | JArr "json list" | JObj "(string \<times> json) list"

text \<open>A response of \<open>requests\<close>: its status code, its text, and what its \<open>json()\<close>
  method does, which raises when the text is not JSON.\<close>

record response =
  status_code :: int
  resp_text :: string
  resp_json :: "exn + json"

text \<open>The body of the draft request:
  \<open>{"platforms": {"x": {"enabled": ..., "posts": [{"text": ...}]}}, "publish_at": ...}\<close>.\<close>

record payload =
  x_enabled :: bool
  x_posts :: "string list"
  publish_at :: string

datatype http_call = HttpGet string | HttpPost string payload

text \<open>
  What is outside the publisher: what a \<open>GET\<close> of a URL and a \<open>POST\<close> of a body to a
  URL do (raise, or return a response), the reading \<open>datetime.now(SGT)\<close> of the clock,
  and Python's \<open>repr\<close> of a JSON value that is not a string.
\<close>

record env =
  http_get :: "string \<Rightarrow> exn + response"
  http_post :: "string \<Rightarrow> payload \<Rightarrow> exn + response"
  now_sgt :: datetime
  repr :: "json \<Rightarrow> string"

text \<open>The attributes of a \<open>TypefullyPublisher\<close> (its \<open>headers\<close> are a function of
  \<open>api_key\<close> and are left out); \<open>social_set_id\<close> is the cache, \<open>JNull\<close> for \<open>None\<close>.\<close>

record publisher =
  api_key :: string
  hours_delay :: int
  publish_hour :: int
  publish_now :: bool
  base_url :: string
  social_set_id :: json

text \<open>The dataclass \<open>PublishResult\<close>; an optional field that is \<open>None\<close> is absent.\<close>

record PublishResult =
  success :: bool
  url :: "string option"
  draft_id :: "string option"
  scheduled_time :: "string option"
  error_msg :: "string option"

text \<open>\<open>__init__\<close>: \<open>key\<close>, \<open>delay\<close>, \<open>hr\<close> and \<open>now\<close> are its parameters \<open>api_key\<close>,
  \<open>hours_delay\<close>, \<open>publish_hour\<close> and \<open>publish_now\<close>.\<close>

definition new_publisher :: "string \<Rightarrow> int \<Rightarrow> int \<Rightarrow> bool \<Rightarrow> publisher" where
  "new_publisher key delay hr now =
     \<lparr>api_key = key, hours_delay = delay, publish_hour = hr, publish_now = now,
      base_url = ''https://api.typefully.com/v2'', social_set_id = JNull\<rparr>"

text \<open>Truth value of a JSON value, as \<open>if v:\<close> tests it.\<close>

fun truthy :: "json \<Rightarrow> bool" where
  "truthy JNull = False"
| "truthy (JBool b) = b"
| "truthy (JInt i) = (i \<noteq> 0)"
| "truthy (JFloat r) = (r \<noteq> 0)"
| "truthy (JStr s) = (s \<noteq> [])"
| "truthy (JArr xs) = (xs \<noteq> [])"
| "truthy (JObj kvs) = (kvs \<noteq> [])"

text \<open>\<open>str(v)\<close>, which an f-string applies: a string is itself, and every other value
  its \<open>repr\<close>.\<close>

fun py_str :: "env \<Rightarrow> json \<Rightarrow> string" where
  "py_str env (JStr s) = s"
| "py_str env v = repr env v"

fun type_name :: "json \<Rightarrow> string" where
  "type_name JNull = ''NoneType''"
| "type_name (JBool b) = ''bool''"
| "type_name (JInt i) = ''int''"
| "type_name (JFloat r) = ''float''"
| "type_name (JStr s) = ''str''"
| "type_name (JArr xs) = ''list''"
| "type_name (JObj kvs) = ''dict''"

text \<open>\<open>v.get(key, default)\<close>: the value of a dictionary, and an \<open>AttributeError\<close> on
  anything else.\<close>

fun dict_get :: "json \<Rightarrow> string \<Rightarrow> json \<Rightarrow> exn + json" where
  "dict_get (JObj kvs) k dflt = Inr (case map_of kvs k of None \<Rightarrow> dflt | Some v \<Rightarrow> v)"
| "dict_get v k dflt =
     Inl (OtherException ([CHR 0x27] @ type_name v @ [CHR 0x27]
            @ '' object has no attribute '' @ [CHR 0x27] @ ''get'' @ [CHR 0x27]))"

text \<open>
  Three operations whose exceptions the program always discards, so \<open>None\<close> stands for
  any of them: \<open>v[0]\<close> (the first element of a list, the first character of a string, a
  \<open>KeyError\<close> on a dictionary, whose keys are strings), \<open>key in v\<close> (a key of a
  dictionary, an element of a list, a substring of a string) and \<open>v[key]\<close>.
\<close>

fun subscript0 :: "json \<Rightarrow> json option" where
  "subscript0 (JArr (x # xs)) = Some x"
| "subscript0 (JStr (c # cs)) = Some (JStr [c])"
| "subscript0 v = None"

fun contains :: "string \<Rightarrow> json \<Rightarrow> bool option" where
  "contains k (JObj kvs) = Some (map_of kvs k \<noteq> None)"
| "contains k (JArr xs) = Some (JStr k \<in> set xs)"
| "contains k (JStr s) = Some (sublist k s)"
| "contains k v = None"

fun subscript_key :: "json \<Rightarrow> string \<Rightarrow> json option" where
  "subscript_key (JObj kvs) k = map_of kvs k"
| "subscript_key v k = None"

text \<open>
  \<open>_get_social_set_id\<close>: the identifier (\<open>JNull\<close> for \<open>None\<close>), the publisher with its
  cache, and the requests made. Every exception of the \<open>try\<close> block returns \<open>None\<close>.
\<close>

definition get_social_set_id :: "env \<Rightarrow> publisher \<Rightarrow> json \<times> publisher \<times> http_call list" where
  "get_social_set_id env self =
     (if truthy (social_set_id self) then (social_set_id self, self, [])
      else
        (let u = base_url self @ ''/social-sets'';
             trace = [HttpGet u]
         in case http_get env u of
              Inl e \<Rightarrow> (JNull, self, trace)
            | Inr response \<Rightarrow>
                if status_code response = 200
                then (case resp_json response of
                        Inl e \<Rightarrow> (JNull, self, trace)
                      | Inr data \<Rightarrow>
                          (case dict_get data ''results'' (JArr []) of
                             Inl e \<Rightarrow> (JNull, self, trace)
                           | Inr results \<Rightarrow>
                               if truthy results
                               then (case subscript0 results of
                                       None \<Rightarrow> (JNull, self, trace)
                                     | Some first \<Rightarrow>
                                         (case dict_get first ''id'' JNull of
                                            Inl e \<Rightarrow> (JNull, self, trace)
                                          | Inr v \<Rightarrow> (v, self\<lparr>social_set_id := v\<rparr>, trace)))
                               else (JNull, self, trace)))
                else (JNull, self, trace)))"

text \<open>\<open>_calculate_publish_time\<close>.\<close>

definition calculate_publish_time :: "env \<Rightarrow> publisher \<Rightarrow> exn + string" where
  "calculate_publish_time env self =
     (case add_hours (now_sgt env) (hours_delay self) of
        Inl e \<Rightarrow> Inl e
      | Inr publish_time \<Rightarrow> Inr (strftime_iso publish_time))"

text \<open>The value \<open>publish\<close> gives its variable \<open>publish_at\<close> (lines 134 to 137).\<close>

definition publish_at_of :: "env \<Rightarrow> publisher \<Rightarrow> exn + string" where
  "publish_at_of env self =
     (if publish_now self then Inr ''now'' else calculate_publish_time env self)"

text \<open>The error message of a response whose status is neither 200 nor 201 (lines 176 to
  187): the inner \<open>try\<close> reads the fields, and its bare \<open>except\<close> appends the text of the
  response to the status message.\<close>

definition extract_field :: "env \<Rightarrow> json \<Rightarrow> string \<Rightarrow> string option" where
  "extract_field env error_data k =
     (case subscript_key error_data k of
        None \<Rightarrow> None
      | Some v \<Rightarrow> Some (''Typefully error: '' @ py_str env v))"

definition error_message :: "env \<Rightarrow> response \<Rightarrow> string" where
  "error_message env response =
     (let msg = ''Typefully API error: '' @ str_int (status_code response);
          attempt =
            (case resp_json response of
               Inl e \<Rightarrow> None
             | Inr error_data \<Rightarrow>
                 (case contains ''error'' error_data of
                    None \<Rightarrow> None
                  | Some True \<Rightarrow> extract_field env error_data ''error''
                  | Some False \<Rightarrow>
                      (case contains ''message'' error_data of
                         None \<Rightarrow> None
                       | Some True \<Rightarrow> extract_field env error_data ''message''
                       | Some False \<Rightarrow>
                           (case contains ''detail'' error_data of
                              None \<Rightarrow> None
                            | Some True \<Rightarrow> extract_field env error_data ''detail''
                            | Some False \<Rightarrow> Some msg))))
      in case attempt of
           Some m \<Rightarrow> m
         | None \<Rightarrow> msg @ '' - '' @ resp_text response)"

definition failure :: "string \<Rightarrow> PublishResult" where
  "failure msg = \<lparr>success = False, url = None, draft_id = None, scheduled_time = None,
                  error_msg = Some msg\<rparr>"

text \<open>The three handlers of the outer \<open>try\<close> of \<open>publish\<close>.\<close>

fun handler :: "exn \<Rightarrow> PublishResult" where
  "handler (Timeout m) = failure ''Typefully API timeout''"
| "handler (RequestException m) = failure (''Request failed: '' @ m)"
| "handler (OtherException m) = failure (''Unexpected error: '' @ m)"

text \<open>\<open>publish\<close>: its result, the publisher with its cache, and the requests made.\<close>

definition publish :: "env \<Rightarrow> publisher \<Rightarrow> string \<Rightarrow> PublishResult \<times> publisher \<times> http_call list" where
  "publish env self content =
     (if content = [] \<or> strip content = [] then (failure ''Content is empty'', self, [])
      else
        (let (sid, self', trace) = get_social_set_id env self
         in if \<not> truthy sid then (failure ''Failed to get social set ID'', self', trace)
            else
              (case publish_at_of env self' of
                 Inl e \<Rightarrow> (handler e, self', trace)
               | Inr pa \<Rightarrow>
                   (let body = \<lparr>x_enabled = True, x_posts = [content], publish_at = pa\<rparr>;
                        u = base_url self' @ ''/social-sets/'' @ py_str env sid @ ''/drafts'';
                        trace' = trace @ [HttpPost u body]
                    in case http_post env u body of
                         Inl e \<Rightarrow> (handler e, self', trace')
                       | Inr response \<Rightarrow>
                           if status_code response = 200 \<or> status_code response = 201
                           then (case resp_json response of
                                   Inl e \<Rightarrow> (handler e, self', trace')
                                 | Inr data \<Rightarrow>
                                     (case dict_get data ''id'' (JStr ''unknown'') of
                                        Inl e \<Rightarrow> (handler e, self', trace')
                                      | Inr did \<Rightarrow>
                                          (\<lparr>success = True,
                                            url = Some (''https://typefully.com/drafts/''
                                                          @ py_str env did),
                                            draft_id = Some (py_str env did),
                                            scheduled_time = Some pa,
                                            error_msg = None\<rparr>, self', trace')))
                           else (failure (error_message env response), self', trace')))))"

section \<open>The specification's words\<close>

text \<open>
  The definitions of this section are not translated from the program. Each states, as a
  function, what the specification says an operation returns; the theorems below compare
  it with the program's function.
\<close>

text \<open>Truncation of a description: the description itself when it has at most
  \<open>max_words\<close> words, else its first \<open>max_words\<close> words, joined by single spaces, and an
  ellipsis.\<close>

definition truncated :: "string \<Rightarrow> int \<Rightarrow> string" where
  "truncated desc max_words =
     (if int (length (split desc)) \<le> max_words then desc
      else join '' '' (take (nat max_words) (split desc)) @ ''...'')"

text \<open>Recency as the specification orders it: a number of days, below every number, or
  infinitely old.\<close>

datatype recency = MinusInfinity | Days real | Infinity

instantiation recency :: linorder
begin

fun less_eq_recency :: "recency \<Rightarrow> recency \<Rightarrow> bool" where
  "less_eq_recency MinusInfinity b = True"
| "less_eq_recency (Days a) MinusInfinity = False"
| "less_eq_recency (Days a) (Days b) = (a \<le> b)"
| "less_eq_recency (Days a) Infinity = True"
| "less_eq_recency Infinity Infinity = True"
| "less_eq_recency Infinity b = False"

definition less_recency :: "recency \<Rightarrow> recency \<Rightarrow> bool" where
  "less_recency a b = (a \<le> b \<and> \<not> b \<le> (a :: recency))"

instance
proof
  fix x y z :: recency
  show "(x < y) = (x \<le> y \<and> \<not> y \<le> x)"
    by (simp add: less_recency_def)
  show "x \<le> x"
    by (cases x) simp_all
  show "x \<le> y \<Longrightarrow> y \<le> z \<Longrightarrow> x \<le> z"
    by (cases x; cases y; cases z) simp_all
  show "x \<le> y \<Longrightarrow> y \<le> x \<Longrightarrow> x = y"
    by (cases x; cases y) simp_all
  show "x \<le> y \<or> y \<le> x"
    by (cases x; cases y) auto
qed

end

text \<open>An item whose recency the order above covers: the key is absent, or its value is
  a number other than \<open>nan\<close>.\<close>

definition numeric :: "'a project_scheme \<Rightarrow> bool" where
  "numeric x =
     (case days_since_discovery x of
        None \<Rightarrow> True
      | Some (PyNum f) \<Rightarrow> f \<noteq> NaN
      | Some v \<Rightarrow> False)"

text \<open>The recency of such an item; an absent key is infinitely old.\<close>

definition recency_of :: "'a project_scheme \<Rightarrow> recency" where
  "recency_of x =
     (case days_since_discovery x of
        Some (PyNum (Fin d)) \<Rightarrow> Days d
      | Some (PyNum NInf) \<Rightarrow> MinusInfinity
      | v \<Rightarrow> Infinity)"

text \<open>Removal of a leading marker \<open>N\<close> followed by the character \<open>c\<close>, for the first
  \<open>N\<close> of \<open>1, ..., n\<close> whose marker the line starts with; what follows the marker is
  stripped of whitespace.\<close>

definition strip_marker :: "char \<Rightarrow> int \<Rightarrow> string \<Rightarrow> string" where
  "strip_marker c n line =
     (case find (\<lambda>i. startswith line (str_int i @ [c])) [1..n] of
        None \<Rightarrow> line
      | Some i \<Rightarrow> strip (drop (length (str_int i @ [c])) line))"

text \<open>Removal of the surrounding quote characters: every double quote (code point 34)
  and single quote (code point 39) at the front of a line and at its end.\<close>

fun drop_quotes :: "string \<Rightarrow> string" where
  "drop_quotes [] = []"
| "drop_quotes (c # cs) =
     (if (of_char c :: nat) = 34 \<or> (of_char c :: nat) = 39 then drop_quotes cs else c # cs)"

definition unquote :: "string \<Rightarrow> string" where
  "unquote s = rev (drop_quotes (rev (drop_quotes s)))"

text \<open>Parsing of a batch response as the specification words it: the non-empty stripped
  lines of the stripped text, in order; of each, one leading marker removed, which is
  \<open>N.\<close>, \<open>N)\<close> or \<open>N:\<close> with \<open>N\<close> from 1 to \<open>n\<close>, then the surrounding quotes. No
  line starts with two of these markers, so the order of \<open>markers\<close> is immaterial.\<close>

definition markers :: "int \<Rightarrow> string list" where
  "markers n =
     concat (map (\<lambda>i. [str_int i @ ''.'', str_int i @ '')'', str_int i @ '':'']) [1..n])"

definition strip_one_marker :: "int \<Rightarrow> string \<Rightarrow> string" where
  "strip_one_marker n line =
     (case find (startswith line) (markers n) of
        None \<Rightarrow> line
      | Some m \<Rightarrow> strip (drop (length m) line))"

definition parse_claimed :: "string \<Rightarrow> int \<Rightarrow> string list" where
  "parse_claimed response_text n =
     map (\<lambda>l. unquote (strip_one_marker n l))
       (filter (\<lambda>l. l \<noteq> []) (map strip (split_on (CHR 0x0A) (strip response_text))))"

text \<open>Parsing of a batch response, amended: the non-empty stripped lines of the stripped
  text, in order; of each, a marker \<open>N.\<close>, then a marker \<open>N)\<close>, then a marker \<open>N:\<close>
  removed, then the surrounding quotes; what is empty after that is left out.\<close>

definition parse_spec :: "string \<Rightarrow> int \<Rightarrow> string list" where
  "parse_spec response_text n =
     filter (\<lambda>l. l \<noteq> [])
       (map (\<lambda>l. unquote
                 (strip_marker (CHR '':'') n
                    (strip_marker (CHR '')'') n (strip_marker (CHR ''.'') n l))))
          (filter (\<lambda>l. l \<noteq> []) (map strip (split_on (CHR 0x0A) (strip response_text)))))"

text \<open>An entry of the message: the index and the name, the handle in parentheses after
  \<open>@\<close> when there is one, and the summary after a colon when there is one. A name that
  is absent reads \<open>Unknown\<close>; a handle or a summary that is the empty string counts as
  absent.\<close>

definition entry :: "int \<Rightarrow> 'a project_scheme \<Rightarrow> string" where
  "entry i p =
     str_int i @ '' '' @ (case project_name p of None \<Rightarrow> ''Unknown'' | Some v \<Rightarrow> v)
     @ (case handle p of None \<Rightarrow> [] | Some h \<Rightarrow> if h = [] then [] else '' (@'' @ h @ '')'')
     @ (case summary p of None \<Rightarrow> [] | Some s \<Rightarrow> if s = [] then [] else '': '' @ s)"

text \<open>The message of a failed submission whose body is a JSON object: the field
  \<open>error\<close>, else \<open>message\<close>, else \<open>detail\<close>, and the status message when the object
  has none of the three.\<close>

definition field_message :: "env \<Rightarrow> int \<Rightarrow> (string \<times> json) list \<Rightarrow> string" where
  "field_message env status kvs =
     (case map_of kvs ''error'' of
        Some v \<Rightarrow> ''Typefully error: '' @ py_str env v
      | None \<Rightarrow>
          (case map_of kvs ''message'' of
             Some v \<Rightarrow> ''Typefully error: '' @ py_str env v
           | None \<Rightarrow>
               (case map_of kvs ''detail'' of
                  Some v \<Rightarrow> ''Typefully error: '' @ py_str env v
                | None \<Rightarrow> ''Typefully API error: '' @ str_int status)))"

text \<open>A \<open>datetime\<close> whose fields are in their ranges (years 1 to 9999).\<close>

definition valid_datetime :: "datetime \<Rightarrow> bool" where
  "valid_datetime dt =
     (1 \<le> year dt \<and> year dt \<le> 9999 \<and> 1 \<le> month dt \<and> month dt \<le> 12
      \<and> 1 \<le> day dt \<and> day dt \<le> days_in_month (year dt) (month dt)
      \<and> 0 \<le> hour dt \<and> hour dt < 24 \<and> 0 \<le> minute dt \<and> minute dt < 60
      \<and> 0 \<le> second dt \<and> second dt < 60
      \<and> 0 \<le> microsecond dt \<and> microsecond dt < 1000000)"

text \<open>The instant of a \<open>datetime\<close>, in seconds on its own clock: 86400 for each day up
  to its date, and the seconds of its time of day.\<close>

definition seconds_of :: "datetime \<Rightarrow> int" where
  "seconds_of dt =
     ymd2ord (year dt) (month dt) (day dt) * 86400
     + hour dt * 3600 + minute dt * 60 + second dt"

text \<open>The instants from the first second of year 1000 to the last second of year 9999:
  those of the dates and times whose year has four digits.\<close>

definition representable :: "int \<Rightarrow> bool" where
  "representable t =
     (ymd2ord 1000 1 1 * 86400 \<le> t \<and> t < (ymd2ord 9999 12 31 + 1) * 86400)"

text \<open>A reader of ISO 8601 timestamps of second precision with the offset \<open>+08:00\<close>,
  \<open>YYYY-MM-DDTHH:MM:SS+08:00\<close>: the date and time the text denotes, when it has this
  form and its fields are in their ranges.\<close>

definition is_digit :: "char \<Rightarrow> bool" where
  "is_digit c = (48 \<le> (of_char c :: nat) \<and> (of_char c :: nat) \<le> 57)"

definition read_digits :: "string \<Rightarrow> int option" where
  "read_digits s =
     (if s \<noteq> [] \<and> list_all is_digit s
      then Some (foldl (\<lambda>a c. 10 * a + (int (of_char c) - 48)) 0 s)
      else None)"

definition read_iso8601 :: "string \<Rightarrow> datetime option" where
  "read_iso8601 s =
     (if length s = 25 \<and> s ! 4 = CHR ''-'' \<and> s ! 7 = CHR ''-'' \<and> s ! 10 = CHR ''T''
         \<and> s ! 13 = CHR '':'' \<and> s ! 16 = CHR '':'' \<and> drop 19 s = ''+08:00''
      then (case (read_digits (take 4 s), read_digits (take 2 (drop 5 s)),
                  read_digits (take 2 (drop 8 s)), read_digits (take 2 (drop 11 s)),
                  read_digits (take 2 (drop 14 s)), read_digits (take 2 (drop 17 s))) of
              (Some y, Some m, Some d, Some hh, Some mm, Some ss) \<Rightarrow>
                (let dt = \<lparr>year = y, month = m, day = d, hour = hh, minute = mm,
                           second = ss, microsecond = 0\<rparr>
                 in if valid_datetime dt then Some dt else None)
            | _ \<Rightarrow> None)
      else None)"

section \<open>Example inputs\<close>

definition item :: "string \<Rightarrow> pyvalue option \<Rightarrow> project" where
  "item nm d = \<lparr>project_name = Some nm, handle = None, description = None,
                days_since_discovery = d, summary = None\<rparr>"

definition days :: "real \<Rightarrow> pyvalue option" where
  "days d = Some (PyNum (Fin d))"

definition unavailable :: service where
  "unavailable k prompt = Inl (OtherException ''503 UNAVAILABLE'')"

text \<open>\<open>repr\<close> on the scalar values; the examples use no other.\<close>

definition scalar_repr :: "json \<Rightarrow> string" where
  "scalar_repr v =
     (case v of
        JNull \<Rightarrow> ''None''
      | JBool b \<Rightarrow> (if b then ''True'' else ''False'')
      | JInt i \<Rightarrow> str_int i
      | _ \<Rightarrow> ''...'')"

abbreviation DQ :: string where
  "DQ \<equiv> [CHR 0x22]"

abbreviation SQ :: string where
  "SQ \<equiv> [CHR 0x27]"

definition social_sets :: response where
  "social_sets =
     \<lparr>status_code = 200,
      resp_text = ''{'' @ DQ @ ''results'' @ DQ @ '': [{'' @ DQ @ ''id'' @ DQ @ '': 42}]}'',
      resp_json = Inr (JObj [(''results'', JArr [JObj [(''id'', JInt 42)]])])\<rparr>"

text \<open>An account with one social set, a submission that is answered with \<open>reply\<close>, and
  the clock at 11:00:00 on 28 December 2024.\<close>

definition example_env :: "response \<Rightarrow> env" where
  "example_env reply =
     \<lparr>http_get = (\<lambda>u. Inr social_sets),
      http_post = (\<lambda>u body. Inr reply),
      now_sgt = \<lparr>year = 2024, month = 12, day = 28, hour = 11, minute = 0, second = 0,
                  microsecond = 0\<rparr>,
      repr = scalar_repr\<rparr>"

definition created :: response where
  "created =
     \<lparr>status_code = 201,
      resp_text = ''{'' @ DQ @ ''id'' @ DQ @ '': 7}'',
      resp_json = Inr (JObj [(''id'', JInt 7)])\<rparr>"

definition rate_limited :: response where
  "rate_limited =
     \<lparr>status_code = 429,
      resp_text = ''{'' @ DQ @ ''message'' @ DQ @ '': '' @ DQ @ ''rate limited'' @ DQ @ ''}'',
      resp_json = Inr (JObj [(''message'', JStr ''rate limited'')])\<rparr>"

definition no_fields :: response where
  "no_fields =
     \<lparr>status_code = 500,
      resp_text = ''{'' @ DQ @ ''code'' @ DQ @ '': 17}'',
      resp_json = Inr (JObj [(''code'', JInt 17)])\<rparr>"

section \<open>Properties of the record source\<close>

lemma length_slice_to: "0 \<le> n \<Longrightarrow> int (length (slice_to n xs)) \<le> n"
  by (simp add: slice_to_def)

lemma slice_to_take: "\<exists>k. slice_to n xs = take k xs"
  by (auto simp: slice_to_def)

lemma sorted_key_nth:
  "sorted (map f r) \<Longrightarrow> i < j \<Longrightarrow> j < length r \<Longrightarrow> f (r ! i) \<le> f (r ! j)"
  using sorted_nth_mono [of "map f r" i j] by simp

text \<open>On items whose recency is missing or a number other than \<open>nan\<close>, \<open><\<close> on the
  keys is the order of the recencies, and \<open>sorted_py\<close> is the stable sort by it.\<close>

lemma py_lt_numeric:
  assumes "numeric x" "numeric y"
  shows "py_lt (recency_key y) (recency_key x) = Some (recency_of y < recency_of x)"
proof -
  have cases_x: "days_since_discovery x = None
                 \<or> (\<exists>f. days_since_discovery x = Some (PyNum f) \<and> f \<noteq> NaN)"
    using assms(1) by (auto simp: numeric_def split: option.splits pyvalue.splits)
  have cases_y: "days_since_discovery y = None
                 \<or> (\<exists>f. days_since_discovery y = Some (PyNum f) \<and> f \<noteq> NaN)"
    using assms(2) by (auto simp: numeric_def split: option.splits pyvalue.splits)
  obtain f where f: "recency_key x = PyNum f" "f \<noteq> NaN"
    "recency_of x = (case f of Fin d \<Rightarrow> Days d | NInf \<Rightarrow> MinusInfinity | v \<Rightarrow> Infinity)"
    using cases_x by (auto simp: recency_key_def recency_of_def split: pyfloat.splits)
  obtain g where g: "recency_key y = PyNum g" "g \<noteq> NaN"
    "recency_of y = (case g of Fin d \<Rightarrow> Days d | NInf \<Rightarrow> MinusInfinity | v \<Rightarrow> Infinity)"
    using cases_y by (auto simp: recency_key_def recency_of_def split: pyfloat.splits)
  show ?thesis
    using f(2) g(2) unfolding f g
    by (cases f; cases g) (auto simp: less_recency_def)
qed

lemma insert_sorted_insort:
  assumes "numeric x" "\<forall>y \<in> set ys. numeric y"
  shows "insert_sorted recency_key x ys = Some (insort_key recency_of x ys)"
  using assms(2)
proof (induction ys)
  case Nil
  then show ?case by simp
next
  case (Cons y ys)
  then have c: "numeric y"
    and IH: "insert_sorted recency_key x ys = Some (insort_key recency_of x ys)"
    by simp_all
  show ?case
  proof (cases "recency_of y < recency_of x")
    case True
    then have "\<not> recency_of x \<le> recency_of y"
      by simp
    with True show ?thesis
      using py_lt_numeric [OF assms(1) c] IH by simp
  next
    case False
    then have "py_lt (recency_key y) (recency_key x) = Some False"
      using py_lt_numeric [OF assms(1) c] by simp
    with False show ?thesis
      by (simp add: not_less)
  qed
qed

lemma sorted_py_sort_key:
  assumes "\<forall>x \<in> set xs. numeric x"
  shows "sorted_py recency_key xs = Some (sort_key recency_of xs)"
  using assms
proof (induction xs)
  case Nil
  then show ?case by simp
next
  case (Cons x xs)
  then have IH: "sorted_py recency_key xs = Some (sort_key recency_of xs)"
    and c: "numeric x"
    and cs: "\<forall>y \<in> set (sort_key recency_of xs). numeric y"
    by simp_all
  show ?case
    using insert_sorted_insort [OF c cs] IH by simp
qed

text \<open>A recency that is null, among two or more items, makes the sort raise.\<close>

lemma py_lt_null: "py_lt a PyNone = None" "py_lt PyNone b = None"
  by (cases a; simp) (cases b; simp)

lemma insert_sorted_length:
  "insert_sorted key x ys = Some zs \<Longrightarrow> length zs = Suc (length ys)"
proof (induction ys arbitrary: zs)
  case Nil
  then show ?case by auto
next
  case (Cons y ys)
  then show ?case
    by (auto split: option.splits bool.splits)
qed

lemma sorted_py_length:
  "sorted_py key xs = Some ys \<Longrightarrow> length ys = length xs"
proof (induction xs arbitrary: ys)
  case Nil
  then show ?case by simp
next
  case (Cons x xs)
  then show ?case
    by (auto split: option.splits dest: insert_sorted_length)
qed

lemma insert_sorted_null:
  assumes "key x = PyNone \<or> key (hd ys) = PyNone" "ys \<noteq> []"
  shows "insert_sorted key x ys = None"
proof -
  obtain y rest where ys: "ys = y # rest"
    using assms(2) by (cases ys) auto
  have "py_lt (key y) (key x) = None"
    using assms(1) py_lt_null by (auto simp: ys)
  then show ?thesis
    by (simp add: ys)
qed

lemma sorted_py_null:
  assumes "\<exists>x \<in> set xs. key x = PyNone" "2 \<le> length xs"
  shows "sorted_py key xs = None"
  using assms
proof (induction xs)
  case Nil
  then show ?case by simp
next
  case (Cons x xs)
  show ?case
  proof (cases "sorted_py key xs")
    case None
    then show ?thesis by simp
  next
    case (Some ys)
    have len: "length ys = length xs"
      using sorted_py_length [OF Some] .
    have xs_ne: "xs \<noteq> []"
      using Cons.prems(2) by (cases xs) simp_all
    then have ne: "ys \<noteq> []"
      using len by (cases ys) simp_all
    have "key x = PyNone \<or> key (hd ys) = PyNone"
    proof (cases "key x = PyNone")
      case True
      then show ?thesis by simp
    next
      case False
      then have ex: "\<exists>x \<in> set xs. key x = PyNone"
        using Cons.prems(1) by simp
      have short: "\<not> 2 \<le> length xs"
      proof
        assume "2 \<le> length xs"
        then have "sorted_py key xs = None"
          by (rule Cons.IH [OF ex])
        with Some show False by simp
      qed
      obtain y where xs: "xs = [y]"
      proof (cases xs)
        case Nil
        with xs_ne show ?thesis by simp
      next
        case (Cons y t)
        with short have "t = []" by (cases t) simp_all
        with Cons that show ?thesis by simp
      qed
      from ex have ky: "key y = PyNone"
        unfolding xs by simp
      from Some have "ys = [y]"
        unfolding xs by simp
      with ky show ?thesis by simp
    qed
    then have "insert_sorted key x ys = None"
      by (rule insert_sorted_null [OF _ ne])
    then show ?thesis
      by (simp add: Some)
  qed
qed

text \<open>
  C3, as amended. For every list of raw items the fetch returns in which each recency is
  missing or a number other than \<open>nan\<close>, and every count \<open>n\<close>, \<open>get_latest_projects\<close>
  returns a list \<open>r\<close> that is sorted by recency ascending, in which every item without a
  recency stands after every item whose recency is a number other than \<open>inf\<close>, and that
  is the front of a reordering of the raw items: the items left out (\<open>rest\<close>) are none of
  them more recent than an item returned. When \<open>n\<close> is not negative, \<open>r\<close> has at most
  \<open>n\<close> items.
\<close>

theorem get_latest_projects_sorted:
  assumes "\<forall>x \<in> set raw. numeric x"
  shows "\<exists>r rest. get_latest_projects (Inr raw) n = Inr r
     \<and> (0 \<le> n \<longrightarrow> int (length r) \<le> n)
     \<and> sorted (map recency_of r)
     \<and> (\<forall>i j. i < length r \<and> j < length r
            \<and> days_since_discovery (r ! i) = None
            \<and> days_since_discovery (r ! j) \<noteq> None
            \<and> days_since_discovery (r ! j) \<noteq> Some (PyNum PInf)
          \<longrightarrow> j < i)
     \<and> mset raw = mset r + mset rest
     \<and> (\<forall>x \<in> set r. \<forall>y \<in> set rest. recency_of x \<le> recency_of y)"
proof -
  define s where "s = sort_key recency_of raw"
  obtain k where k: "slice_to n s = take k s"
    using slice_to_take by blast
  define r where "r = take k s"
  define rest where "rest = drop k s"
  have srt: "sorted (map recency_of s)"
    by (simp add: s_def)
  have s_split: "s = r @ rest"
    by (simp add: r_def rest_def)
  have run: "sorted_py recency_key raw = Some s"
    using sorted_py_sort_key [OF assms] by (simp add: s_def)
  have res: "get_latest_projects (Inr raw) n = Inr r"
    by (simp add: get_latest_projects_def run k r_def)
  have len: "0 \<le> n \<longrightarrow> int (length r) \<le> n"
    using length_slice_to [of n s] by (simp add: k r_def)
  have sr: "sorted (map recency_of r)"
    using srt unfolding s_split by (simp add: sorted_append)
  have cross: "\<forall>x \<in> set r. \<forall>y \<in> set rest. recency_of x \<le> recency_of y"
    using srt unfolding s_split by (auto simp: sorted_append)
  have ms: "mset raw = mset r + mset rest"
  proof -
    have "mset raw = mset s" by (simp add: s_def)
    then show ?thesis by (simp add: s_split)
  qed
  have sub: "set r \<subseteq> set raw"
  proof -
    have "set r \<subseteq> set s" by (simp add: s_split)
    then show ?thesis by (simp add: s_def)
  qed
  have missing_last: "\<forall>i j. i < length r \<and> j < length r
            \<and> days_since_discovery (r ! i) = None
            \<and> days_since_discovery (r ! j) \<noteq> None
            \<and> days_since_discovery (r ! j) \<noteq> Some (PyNum PInf)
          \<longrightarrow> j < i"
  proof (intro allI impI)
    fix i j
    assume a: "i < length r \<and> j < length r
            \<and> days_since_discovery (r ! i) = None
            \<and> days_since_discovery (r ! j) \<noteq> None
            \<and> days_since_discovery (r ! j) \<noteq> Some (PyNum PInf)"
    then have "r ! j \<in> set raw"
      using sub nth_mem by blast
    then have nj: "numeric (r ! j)"
      using assms by blast
    have below: "recency_of (r ! j) \<noteq> Infinity"
      using a nj
      by (auto simp: numeric_def recency_of_def split: option.splits pyvalue.splits pyfloat.splits)
    have top: "recency_of (r ! i) = Infinity"
      using a by (simp add: recency_of_def)
    show "j < i"
    proof (rule ccontr)
      assume "\<not> j < i"
      with a have "i < j" by (cases "i = j") auto
      then have "recency_of (r ! i) \<le> recency_of (r ! j)"
        using sorted_key_nth [OF sr] a by blast
      with top below show False
        by (cases "recency_of (r ! j)") simp_all
    qed
  qed
  from res len sr missing_last ms cross show ?thesis by blast
qed


text \<open>The theorem at three items, the second without a recency, and the count 3.\<close>

theorem get_latest_projects_sorted_witness:
  "numeric (item ''a'' (days 3)) \<and> numeric (item ''b'' None) \<and> numeric (item ''c'' (days 1))
   \<and> (0::int) \<le> 3
   \<and> get_latest_projects (Inr [item ''a'' (days 3), item ''b'' None, item ''c'' (days 1)]) 3
       = Inr [item ''c'' (days 1), item ''a'' (days 3), item ''b'' None]
   \<and> days_since_discovery ([item ''c'' (days 1), item ''a'' (days 3), item ''b'' None] ! 2) = None
   \<and> days_since_discovery ([item ''c'' (days 1), item ''a'' (days 3), item ''b'' None] ! 1) = days 3
   \<and> (1::nat) < 2
   \<and> int (length [item ''c'' (days 1), item ''a'' (days 3), item ''b'' None]) \<le> 3"
proof -
  let ?raw = "[item ''a'' (days 3), item ''b'' None, item ''c'' (days 1)]"
  let ?out = "[item ''c'' (days 1), item ''a'' (days 3), item ''b'' None]"
  have num: "numeric (item ''a'' (days 3))" "numeric (item ''b'' None)"
    "numeric (item ''c'' (days 1))"
    by (simp_all add: numeric_def item_def days_def)
  then have hyp: "\<forall>x \<in> set ?raw. numeric x"
    by simp
  have ev: "get_latest_projects (Inr ?raw) 3 = Inr ?out"
    by (simp add: get_latest_projects_def slice_to_def recency_key_def item_def days_def)
  obtain r rest where r: "get_latest_projects (Inr ?raw) 3 = Inr r"
    and len: "(0::int) \<le> 3 \<longrightarrow> int (length r) \<le> 3"
    and last: "\<forall>i j. i < length r \<and> j < length r
            \<and> days_since_discovery (r ! i) = None
            \<and> days_since_discovery (r ! j) \<noteq> None
            \<and> days_since_discovery (r ! j) \<noteq> Some (PyNum PInf)
          \<longrightarrow> j < i"
    using get_latest_projects_sorted [OF hyp, of 3] by blast
  from r ev have eq: "r = ?out" by simp
  have none: "days_since_discovery (?out ! 2) = None"
    and some: "days_since_discovery (?out ! 1) = days 3"
    by (simp_all add: item_def)
  have "2 < length ?out \<and> 1 < length ?out
        \<and> days_since_discovery (?out ! 2) = None
        \<and> days_since_discovery (?out ! 1) \<noteq> None
        \<and> days_since_discovery (?out ! 1) \<noteq> Some (PyNum PInf)"
    using none some by (simp add: days_def)
  with last [unfolded eq] have "(1::nat) < 2"
    by blast
  moreover from len eq have "int (length ?out) \<le> 3" by simp
  ultimately show ?thesis using ev none some num by simp
qed

text \<open>
  C3 as stated fails in four ways. For a negative count, the slice \<open>[:-1]\<close> of three
  sorted items has two items, which is not at most \<open>-1\<close>. For an item whose recency is
  null, the comparison with the recency of the other item raises \<open>TypeError\<close> and no
  list is returned. An item without a recency that comes before an item whose recency is
  \<open>inf\<close> stays before it: the keys are equal and the sort is stable. With the
  recencies 1, \<open>nan\<close>, 0 no comparison of neighbours is true, and the items are returned
  in this order, 1 before 0.
\<close>

theorem get_latest_projects_unordered:
  "get_latest_projects (Inr [item ''a'' (days 3), item ''b'' None, item ''c'' (days 1)]) (- 1)
     = Inr [item ''c'' (days 1), item ''a'' (days 3)]
   \<and> \<not> int (length [item ''c'' (days 1), item ''a'' (days 3)]) \<le> - 1
   \<and> get_latest_projects (Inr [item ''a'' (Some PyNone), item ''b'' (days 1)]) 2 = Inl TypeError
   \<and> get_latest_projects (Inr [item ''a'' None, item ''b'' (Some (PyNum PInf))]) 2
       = Inr [item ''a'' None, item ''b'' (Some (PyNum PInf))]
   \<and> get_latest_projects
        (Inr [item ''a'' (days 1), item ''b'' (Some (PyNum NaN)), item ''c'' (days 0)]) 3
       = Inr [item ''a'' (days 1), item ''b'' (Some (PyNum NaN)), item ''c'' (days 0)]"
  by (simp add: get_latest_projects_def slice_to_def recency_key_def item_def days_def)

section \<open>Properties of the summarization engine\<close>

lemma summarize_description_returns:
  "\<exists>s st'. summarize_description svc st desc max_words = (Inr s, st')"
  by (simp add: summarize_description_def generate_content_def Let_def split: sum.splits)

lemma batch_loop_summaries:
  "\<exists>ss st'. batch_loop svc max_words summaries i ps st
       = (None, map2 (\<lambda>p s. p\<lparr>summary := Some s\<rparr>) ps ss, st') \<and> length ss = length ps"
proof (induction ps arbitrary: i st)
  case Nil
  then show ?case by simp
next
  case (Cons p ps)
  show ?case
  proof (cases "i < length summaries \<and> summaries ! i \<noteq> []")
    case True
    obtain ss st' where
      "batch_loop svc max_words summaries (Suc i) ps st
         = (None, map2 (\<lambda>p s. p\<lparr>summary := Some s\<rparr>) ps ss, st')" "length ss = length ps"
      using Cons.IH by blast
    with True have
      "batch_loop svc max_words summaries i (p # ps) st
         = (None, map2 (\<lambda>p s. p\<lparr>summary := Some s\<rparr>) (p # ps) ((summaries ! i) # ss), st')
       \<and> length ((summaries ! i) # ss) = length (p # ps)"
      by simp
    then show ?thesis by blast
  next
    case False
    obtain s st1 where d: "summarize_description svc st (get_description p) max_words = (Inr s, st1)"
      using summarize_description_returns by blast
    obtain ss st' where bl:
      "batch_loop svc max_words summaries (Suc i) ps st1
         = (None, map2 (\<lambda>p s. p\<lparr>summary := Some s\<rparr>) ps ss, st')" "length ss = length ps"
      using Cons.IH by blast
    have "batch_loop svc max_words summaries i (p # ps) st
            = (case summarize_description svc st (get_description p) max_words of
                 (Inl e, st') \<Rightarrow> (Some e, p # ps, st')
               | (Inr s, st') \<Rightarrow>
                   (case batch_loop svc max_words summaries (Suc i) ps st' of
                      (raised, rest', st'') \<Rightarrow> (raised, p\<lparr>summary := Some s\<rparr> # rest', st'')))"
      using False by (simp only: batch_loop.simps if_False)
    with d bl have
      "batch_loop svc max_words summaries i (p # ps) st
         = (None, map2 (\<lambda>p s. p\<lparr>summary := Some s\<rparr>) (p # ps) (s # ss), st')
       \<and> length (s # ss) = length (p # ps)"
      by simp
    then show ?thesis by blast
  qed
qed

lemma individual_loop_summaries:
  "\<exists>ss st'. individual_loop svc max_words i ps st
       = (None, map2 (\<lambda>p s. p\<lparr>summary := Some s\<rparr>) ps ss, st') \<and> length ss = length ps"
proof (induction ps arbitrary: i st)
  case Nil
  then show ?case by simp
next
  case (Cons p ps)
  define st0 where "st0 = (if i > 0 then time_sleep st else st)"
  obtain s st1 where d: "summarize_description svc st0 (get_description p) max_words = (Inr s, st1)"
    using summarize_description_returns by blast
  obtain ss st' where
    "individual_loop svc max_words (Suc i) ps st1
       = (None, map2 (\<lambda>p s. p\<lparr>summary := Some s\<rparr>) ps ss, st')" "length ss = length ps"
    using Cons.IH by blast
  with d have
    "individual_loop svc max_words i (p # ps) st
       = (None, map2 (\<lambda>p s. p\<lparr>summary := Some s\<rparr>) (p # ps) (s # ss), st')
     \<and> length (s # ss) = length (p # ps)"
    by (simp add: st0_def Let_def)
  then show ?case by blast
qed

lemma summarize_projects_summaries:
  "\<exists>ss st'. summarize_projects svc st projects max_words
       = (Inr (map2 (\<lambda>p s. p\<lparr>summary := Some s\<rparr>) projects ss), st')
     \<and> length ss = length projects"
proof -
  define st1 where "st1 = st\<lparr>calls := Suc (calls st)\<rparr>"
  define reply where "reply = svc (calls st) (build_batch_prompt projects max_words)"
  have fallback: "\<exists>ss st'. (case individual_loop svc max_words 0 projects st1 of
                (None, projects2, st3) \<Rightarrow> (Inr projects2, st3)
              | (Some e', projects2, st3) \<Rightarrow> (Inl e', st3))
       = (Inr (map2 (\<lambda>p s. p\<lparr>summary := Some s\<rparr>) projects ss), st')
     \<and> length ss = length projects"
  proof -
    obtain ss st' where
      "individual_loop svc max_words 0 projects st1
         = (None, map2 (\<lambda>p s. p\<lparr>summary := Some s\<rparr>) projects ss, st')" "length ss = length projects"
      using individual_loop_summaries by blast
    then show ?thesis by auto
  qed
  show ?thesis
  proof (cases reply)
    case (Inl e)
    with fallback show ?thesis
      by (simp add: summarize_projects_def generate_content_def reply_def [symmetric] st1_def [symmetric])
  next
    case (Inr t)
    show ?thesis
    proof (cases t)
      case None
      with Inr fallback show ?thesis
        by (simp add: summarize_projects_def generate_content_def reply_def [symmetric] st1_def [symmetric])
    next
      case (Some response_text)
      obtain ss st' where
        "batch_loop svc max_words (parse_batch_response response_text (int (length projects))) 0 projects st1
           = (None, map2 (\<lambda>p s. p\<lparr>summary := Some s\<rparr>) projects ss, st')" "length ss = length projects"
        using batch_loop_summaries by blast
      with Inr Some have "summarize_projects svc st projects max_words
           = (Inr (map2 (\<lambda>p s. p\<lparr>summary := Some s\<rparr>) projects ss), st')"
        by (simp add: summarize_projects_def generate_content_def reply_def [symmetric] st1_def [symmetric])
      with \<open>length ss = length projects\<close> show ?thesis by blast
    qed
  qed
qed

text \<open>
  C1. For every list of records, every behaviour \<open>svc\<close> of the service (the batch call
  answers with any text, answers without text, or raises) and every \<open>max_words\<close>,
  \<open>summarize_projects\<close> returns a list \<open>r\<close> of as many records as it was given, and the
  record at each position is the input record of that position with its \<open>summary\<close> key
  set to a string (\<open>ss\<close> lists these strings), every other key as it was.
\<close>

theorem summarize_projects_same_records:
  "\<exists>r ss st'. summarize_projects svc st projects max_words = (Inr r, st')
     \<and> length r = length projects
     \<and> length ss = length projects
     \<and> r = map2 (\<lambda>p s. p\<lparr>summary := Some s\<rparr>) projects ss"
proof -
  obtain ss st' where res:
    "summarize_projects svc st projects max_words
       = (Inr (map2 (\<lambda>p s. p\<lparr>summary := Some s\<rparr>) projects ss), st')"
    and len: "length ss = length projects"
    using summarize_projects_summaries by blast
  define r where "r = map2 (\<lambda>p s. p\<lparr>summary := Some s\<rparr>) projects ss"
  have "length r = length projects"
    by (simp add: r_def len)
  with res len r_def show ?thesis by blast
qed

text \<open>
  C2. Whatever the service does on the batch call and on every single-item call (\<open>svc\<close>
  is arbitrary: any text, no text, or an exception at each call), \<open>summarize_projects\<close>
  and \<open>summarize_description\<close> return a value: neither returns an exception.
\<close>

theorem summarizer_never_raises:
  "(\<exists>r st'. summarize_projects svc st projects max_words = (Inr r, st'))
   \<and> (\<exists>s st'. summarize_description svc st desc max_words = (Inr s, st'))"
  using summarize_projects_summaries [of svc st projects max_words]
    summarize_description_returns [of svc st desc max_words]
  by blast

text \<open>
  C5, as amended. When the single-item call is made (the stripped description has 20
  characters or more) and fails (the service raises, or its response has no text), and
  \<open>max_words\<close> is not negative, \<open>summarize_description\<close> returns the truncation of the
  description: the description unchanged when it has at most \<open>max_words\<close> words, else
  its first \<open>max_words\<close> words joined by single spaces, with \<open>...\<close> appended.
\<close>

theorem summarize_description_truncates:
  assumes "svc (calls st) (description_prompt desc max_words) = Inl e
           \<or> svc (calls st) (description_prompt desc max_words) = Inr None"
    and "20 \<le> length (strip desc)"
    and "0 \<le> max_words"
  shows "summarize_description svc st desc max_words
           = (Inr (truncated desc max_words), st\<lparr>calls := Suc (calls st)\<rparr>)"
proof -
  from assms(2) have ne: "desc \<noteq> []"
    by (auto simp: strip_def strip_chars_def)
  from assms(3) have sl: "slice_to max_words (split desc) = take (nat max_words) (split desc)"
    by (simp add: slice_to_def)
  from assms(1) show ?thesis
  proof
    assume "svc (calls st) (description_prompt desc max_words) = Inl e"
    with ne assms(2) sl show ?thesis
      by (simp add: summarize_description_def generate_content_def truncated_def Let_def)
  next
    assume "svc (calls st) (description_prompt desc max_words) = Inr None"
    with ne assms(2) sl show ?thesis
      by (simp add: summarize_description_def generate_content_def truncated_def text_strip_def Let_def)
  qed
qed

text \<open>The theorem at the specification's example: five words, \<open>max_words = 3\<close>, a
  service that raises.\<close>

theorem summarize_description_truncates_witness:
  "summarize_description unavailable \<lparr>calls = 0, slept = 0\<rparr> ''alpha beta gamma delta epsilon'' 3
     = (Inr ''alpha beta gamma...'', \<lparr>calls = 1, slept = 0\<rparr>)"
proof -
  have h1: "unavailable (calls \<lparr>calls = 0, slept = 0\<rparr>)
              (description_prompt ''alpha beta gamma delta epsilon'' 3)
            = Inl (OtherException ''503 UNAVAILABLE'')
          \<or> unavailable (calls \<lparr>calls = 0, slept = 0\<rparr>)
              (description_prompt ''alpha beta gamma delta epsilon'' 3) = Inr None"
    by (simp add: unavailable_def)
  have h2: "20 \<le> length (strip ''alpha beta gamma delta epsilon'')"
    by code_simp
  have t: "truncated ''alpha beta gamma delta epsilon'' 3 = ''alpha beta gamma...''"
    by code_simp
  show ?thesis
    using summarize_description_truncates
      [of unavailable "\<lparr>calls = 0, slept = 0\<rparr>" "''alpha beta gamma delta epsilon''" 3
          "OtherException ''503 UNAVAILABLE''", OF h1 h2]
    by (simp add: t)
qed

text \<open>
  C5 as stated fails for a negative \<open>max_words\<close>: with \<open>max_words = -1\<close> the slice
  \<open>[:-1]\<close> keeps four of the five words, where the first \<open>max_words\<close> words are none.
\<close>

theorem summarize_description_negative_max_words:
  "fst (summarize_description unavailable \<lparr>calls = 0, slept = 0\<rparr>
          ''alpha beta gamma delta epsilon'' (- 1)) = Inr ''alpha beta gamma delta...''
   \<and> truncated ''alpha beta gamma delta epsilon'' (- 1) = ''...''
   \<and> fst (summarize_description unavailable \<lparr>calls = 0, slept = 0\<rparr>
          ''alpha beta gamma delta epsilon'' (- 1))
       \<noteq> Inr (truncated ''alpha beta gamma delta epsilon'' (- 1))"
  by code_simp

lemma remove_numbering_find:
  "remove_numbering (map f ns) line =
     (case find (\<lambda>i. startswith line (f i)) ns of
        None \<Rightarrow> line
      | Some i \<Rightarrow> strip (drop (length (f i)) line))"
  by (induction ns) simp_all

lemma remove_numbering_strip_marker:
  "remove_numbering (numbering c n) line = strip_marker c n line"
  unfolding numbering_def strip_marker_def by (rule remove_numbering_find)

lemma drop_quotes_dropWhile: "drop_quotes s = dropWhile is_quote s"
proof (induction s)
  case Nil
  then show ?case by simp
next
  case (Cons c cs)
  have "is_quote c = ((of_char c :: nat) = 34 \<or> (of_char c :: nat) = 39)"
  proof -
    have "(c = CHR 0x22) = ((of_char c :: nat) = of_char (CHR 0x22))"
      and "(c = CHR 0x27) = ((of_char c :: nat) = of_char (CHR 0x27))"
      by (simp_all only: of_char_eq_iff)
    then show ?thesis
      by (simp add: is_quote_def)
  qed
  with Cons show ?case by simp
qed

lemma strip_chars_unquote: "strip_chars is_quote s = unquote s"
  by (simp add: strip_chars_def unquote_def drop_quotes_dropWhile)

lemma parse_lines_pipeline:
  "parse_lines n ls acc =
     acc @ filter (\<lambda>l. l \<noteq> [])
       (map (\<lambda>l. unquote
                 (strip_marker (CHR '':'') n
                    (strip_marker (CHR '')'') n (strip_marker (CHR ''.'') n l))))
          (filter (\<lambda>l. l \<noteq> []) (map strip ls)))"
  by (induction ls arbitrary: acc)
     (simp_all add: Let_def remove_numbering_strip_marker strip_chars_unquote)

text \<open>
  C6, as amended. \<open>_parse_batch_response\<close> splits the stripped response text into lines,
  strips each and drops the empty ones, removes from each line a leading marker \<open>N.\<close>,
  then from what is left a leading marker \<open>N)\<close>, then a leading marker \<open>N:\<close>, with
  \<open>N\<close> from 1 to the expected count each time and what follows a marker stripped of
  whitespace, strips the surrounding quote characters, single and double, and collects
  what is not empty, in order. For 2 records the text \<open>1. Alpha wallet tool\<close>, newline,
  \<open>2. Yield tracker\<close> parses to the two summaries without their markers. The further
  examples have quoted summaries, one in double and one in single quotes, and a blank
  line; a line that starts with three markers, which loses all three; a line that starts
  with \<open>1)\<close> and then \<open>2.\<close>, which loses only the first, as the pass for \<open>N.\<close> comes
  before the one for \<open>N)\<close>; and a line of which nothing is left, which is dropped.
\<close>

theorem parse_batch_response_pipeline:
  "parse_batch_response response_text n = parse_spec response_text n
   \<and> parse_batch_response (''1. Alpha wallet tool'' @ NL @ ''2. Yield tracker'') 2
       = [''Alpha wallet tool'', ''Yield tracker'']
   \<and> parse_batch_response
        (''1. '' @ DQ @ ''Alpha wallet tool'' @ DQ @ NL @ NL
         @ ''2) '' @ SQ @ ''Yield tracker'' @ SQ @ NL @ ''3: Bridge'') 3
       = [''Alpha wallet tool'', ''Yield tracker'', ''Bridge'']
   \<and> parse_batch_response ''1. 2) 3: x'' 3 = [''x'']
   \<and> parse_batch_response ''1) 2. x'' 3 = [''2. x'']
   \<and> parse_batch_response (''1. '' @ DQ @ DQ @ NL @ ''2. Yield tracker'') 2
       = [''Yield tracker'']"
proof (intro conjI)
  show "parse_batch_response response_text n = parse_spec response_text n"
    by (simp add: parse_batch_response_def parse_spec_def parse_lines_pipeline)
  show "parse_batch_response (''1. Alpha wallet tool'' @ NL @ ''2. Yield tracker'') 2
       = [''Alpha wallet tool'', ''Yield tracker'']"
    by code_simp
  show "parse_batch_response
        (''1. '' @ DQ @ ''Alpha wallet tool'' @ DQ @ NL @ NL
         @ ''2) '' @ SQ @ ''Yield tracker'' @ SQ @ NL @ ''3: Bridge'') 3
       = [''Alpha wallet tool'', ''Yield tracker'', ''Bridge'']"
    by code_simp
  show "parse_batch_response ''1. 2) 3: x'' 3 = [''x'']"
    by code_simp
  show "parse_batch_response ''1) 2. x'' 3 = [''2. x'']"
    by code_simp
  show "parse_batch_response (''1. '' @ DQ @ DQ @ NL @ ''2. Yield tracker'') 2
       = [''Yield tracker'']"
    by code_simp
qed

text \<open>
  C6 as stated fails on a line that starts with two markers of different forms: the
  specification has one leading marker removed, which leaves \<open>2) Alpha\<close>, and the
  program removes the marker \<open>1.\<close> and then the marker \<open>2)\<close>. On the specification's
  own example the two agree.
\<close>

theorem parse_batch_response_two_markers:
  "parse_batch_response ''1. 2) Alpha'' 2 = [''Alpha'']
   \<and> parse_claimed ''1. 2) Alpha'' 2 = [''2) Alpha'']
   \<and> parse_batch_response ''1. 2) Alpha'' 2 \<noteq> parse_claimed ''1. 2) Alpha'' 2
   \<and> parse_claimed (''1. Alpha wallet tool'' @ NL @ ''2. Yield tracker'') 2
       = [''Alpha wallet tool'', ''Yield tracker'']"
  by code_simp

section \<open>Properties of the message formatter\<close>

lemma format_lines_entries:
  "format_lines (int i) ps acc = acc @ map (\<lambda>(k, p). entry (int k) p) (enumerate i ps)"
proof (induction ps arbitrary: i acc)
  case Nil
  then show ?case by simp
next
  case (Cons p ps)
  have "format_lines (int i) (p # ps) acc
          = format_lines (int (Suc i)) ps (acc @ [entry (int i) p])"
    by (simp add: Let_def entry_def add.commute split: option.splits)
  then show ?case
    using Cons.IH [of "Suc i" "acc @ [entry (int i) p]"] by simp
qed

text \<open>
  C9. For every list of records, \<open>format_tweet\<close> is the header
  \<open>Early web3 projects (date)\<close>, with the current date as month abbreviation and day,
  followed by one entry for each record, in the order of the input and numbered from 1,
  all joined by two newlines. An entry is \<open>index name\<close>, or \<open>index name (@handle)\<close> when
  the record has a non-empty handle, with \<open>: summary\<close> appended when the summary is
  not empty. The specification's example, a record X with handle x and summary s and a
  record Y with an empty summary, gives the header, \<open>1 X (@x): s\<close> and \<open>2 Y\<close>: at
  every time, and in full on 28 December 2024, where the header reads
  \<open>Early web3 projects (Dec 28)\<close>. On 5 January 2025 the message for no record is the
  header \<open>Early web3 projects (Jan 05)\<close> alone, and the dates of the ninth day of the
  twelve months of 2025 read \<open>Jan 09\<close> to \<open>Dec 09\<close>.
\<close>

theorem format_tweet_entries:
  "format_tweet now projects
     = join (NL @ NL) ((''Early web3 projects ('' @ strftime_b_d now @ '')'')
                         # map (\<lambda>(k, p). entry (int k) p) (enumerate 1 projects))
   \<and> format_tweet now
        [\<lparr>project_name = Some ''X'', handle = Some ''x'', description = None,
           days_since_discovery = None, summary = Some ''s''\<rparr>,
         \<lparr>project_name = Some ''Y'', handle = None, description = None,
           days_since_discovery = None, summary = Some []\<rparr>]
     = ''Early web3 projects ('' @ strftime_b_d now @ '')'' @ NL @ NL
       @ ''1 X (@x): s'' @ NL @ NL @ ''2 Y''
   \<and> format_tweet
        \<lparr>year = 2024, month = 12, day = 28, hour = 11, minute = 30, second = 0,
          microsecond = 0\<rparr>
        [\<lparr>project_name = Some ''X'', handle = Some ''x'', description = None,
           days_since_discovery = None, summary = Some ''s''\<rparr>,
         \<lparr>project_name = Some ''Y'', handle = None, description = None,
           days_since_discovery = None, summary = Some []\<rparr>]
     = ''Early web3 projects (Dec 28)'' @ NL @ NL @ ''1 X (@x): s'' @ NL @ NL @ ''2 Y''
   \<and> format_tweet
        \<lparr>year = 2025, month = 1, day = 5, hour = 9, minute = 0, second = 0,
          microsecond = 0\<rparr>
        ([] :: project list)
     = ''Early web3 projects (Jan 05)''
   \<and> map (\<lambda>m. strftime_b_d \<lparr>year = 2025, month = m, day = 9, hour = 0, minute = 0,
                                second = 0, microsecond = 0\<rparr>) [1..12]
     = [''Jan 09'', ''Feb 09'', ''Mar 09'', ''Apr 09'', ''May 09'', ''Jun 09'',
        ''Jul 09'', ''Aug 09'', ''Sep 09'', ''Oct 09'', ''Nov 09'', ''Dec 09'']"
proof (intro conjI)
  show "format_tweet now projects
     = join (NL @ NL) ((''Early web3 projects ('' @ strftime_b_d now @ '')'')
                         # map (\<lambda>(k, p). entry (int k) p) (enumerate 1 projects))"
    using format_lines_entries [of 1 projects]
    by (simp add: format_tweet_def Let_def)
  have one: "str_int 1 = ''1''" and two: "str_int 2 = ''2''"
    by code_simp+
  show "format_tweet now
        [\<lparr>project_name = Some ''X'', handle = Some ''x'', description = None,
           days_since_discovery = None, summary = Some ''s''\<rparr>,
         \<lparr>project_name = Some ''Y'', handle = None, description = None,
           days_since_discovery = None, summary = Some []\<rparr>]
     = ''Early web3 projects ('' @ strftime_b_d now @ '')'' @ NL @ NL
       @ ''1 X (@x): s'' @ NL @ NL @ ''2 Y''"
    by (simp add: format_tweet_def Let_def one two)
  show "format_tweet
        \<lparr>year = 2024, month = 12, day = 28, hour = 11, minute = 30, second = 0,
          microsecond = 0\<rparr>
        [\<lparr>project_name = Some ''X'', handle = Some ''x'', description = None,
           days_since_discovery = None, summary = Some ''s''\<rparr>,
         \<lparr>project_name = Some ''Y'', handle = None, description = None,
           days_since_discovery = None, summary = Some []\<rparr>]
     = ''Early web3 projects (Dec 28)'' @ NL @ NL @ ''1 X (@x): s'' @ NL @ NL @ ''2 Y''"
    by code_simp
  show "format_tweet
        \<lparr>year = 2025, month = 1, day = 5, hour = 9, minute = 0, second = 0,
          microsecond = 0\<rparr>
        ([] :: project list)
     = ''Early web3 projects (Jan 05)''"
    by code_simp
  show "map (\<lambda>m. strftime_b_d \<lparr>year = 2025, month = m, day = 9, hour = 0, minute = 0,
                                second = 0, microsecond = 0\<rparr>) [1..12]
     = [''Jan 09'', ''Feb 09'', ''Mar 09'', ''Apr 09'', ''May 09'', ''Jun 09'',
        ''Jul 09'', ''Aug 09'', ''Sep 09'', ''Oct 09'', ''Nov 09'', ''Dec 09'']"
    by code_simp
qed

section \<open>Properties of dates and times\<close>

lemma nth_tables:
  "DAYS_BEFORE_MONTH ! Suc 0 = 0" "DAYS_BEFORE_MONTH ! 1 = 0" "DAYS_BEFORE_MONTH ! 2 = 31"
  "DAYS_BEFORE_MONTH ! 3 = 59" "DAYS_BEFORE_MONTH ! 4 = 90" "DAYS_BEFORE_MONTH ! 5 = 120"
  "DAYS_BEFORE_MONTH ! 6 = 151" "DAYS_BEFORE_MONTH ! 7 = 181" "DAYS_BEFORE_MONTH ! 8 = 212"
  "DAYS_BEFORE_MONTH ! 9 = 243" "DAYS_BEFORE_MONTH ! 10 = 273" "DAYS_BEFORE_MONTH ! 11 = 304"
  "DAYS_BEFORE_MONTH ! 12 = 334"
  "DAYS_IN_MONTH ! Suc 0 = 31" "DAYS_IN_MONTH ! 1 = 31" "DAYS_IN_MONTH ! 2 = 28"
  "DAYS_IN_MONTH ! 3 = 31" "DAYS_IN_MONTH ! 4 = 30" "DAYS_IN_MONTH ! 5 = 31"
  "DAYS_IN_MONTH ! 6 = 30" "DAYS_IN_MONTH ! 7 = 31" "DAYS_IN_MONTH ! 8 = 31"
  "DAYS_IN_MONTH ! 9 = 30" "DAYS_IN_MONTH ! 10 = 31" "DAYS_IN_MONTH ! 11 = 30"
  "DAYS_IN_MONTH ! 12 = 31"
  by (simp_all add: DAYS_BEFORE_MONTH_def DAYS_IN_MONTH_def)

lemma month_day:
  fixes r y :: int and leap :: bool
  assumes "0 \<le> r" "r < 365"
  shows "case (let m = (r + 50) div 32;
                   preceding = DAYS_BEFORE_MONTH ! nat m + (if m > 2 \<and> leap then 1 else 0)
               in if preceding > r
                  then (let m = m - 1;
                            preceding = preceding
                              - (DAYS_IN_MONTH ! nat m + (if m = 2 \<and> leap then 1 else 0))
                        in (y, m, r - preceding + 1))
                  else (y, m, r - preceding + 1))
         of (y', m, d) \<Rightarrow>
           y' = y \<and> 1 \<le> m \<and> m \<le> 12 \<and> 1 \<le> d
           \<and> DAYS_BEFORE_MONTH ! nat m + (if m > 2 \<and> leap then 1 else 0) + d = r + 1
           \<and> d \<le> (if m = 2 \<and> leap then 29 else DAYS_IN_MONTH ! nat m)"
proof -
  have dm: "r + 50 = 32 * ((r + 50) div 32) + (r + 50) mod 32"
    and m0: "0 \<le> (r + 50) mod 32" and m32: "(r + 50) mod 32 < 32"
    by simp_all
  define q where "q = (r + 50) div 32"
  have "1 \<le> q" "q \<le> 12"
    using assms dm m0 m32 unfolding q_def by linarith+
  then have "q = 1 \<or> q = 2 \<or> q = 3 \<or> q = 4 \<or> q = 5 \<or> q = 6
    \<or> q = 7 \<or> q = 8 \<or> q = 9 \<or> q = 10 \<or> q = 11 \<or> q = 12"
    by arith
  then consider "(r + 50) div 32 = 1" | "(r + 50) div 32 = 2" | "(r + 50) div 32 = 3"
    | "(r + 50) div 32 = 4" | "(r + 50) div 32 = 5" | "(r + 50) div 32 = 6"
    | "(r + 50) div 32 = 7" | "(r + 50) div 32 = 8" | "(r + 50) div 32 = 9"
    | "(r + 50) div 32 = 10" | "(r + 50) div 32 = 11" | "(r + 50) div 32 = 12"
    unfolding q_def by blast
  then show ?thesis
  proof cases
    case 1
    with dm m0 m32 have b: "r < 14"
      by linarith+
    from 1 b assms(1) show ?thesis
      unfolding Let_def by (cases leap) (simp_all add: nth_tables)
  next
    case 2
    with dm m0 m32 have b: "14 \<le> r" "r < 46"
      by linarith+
    from 2 b show ?thesis
      unfolding Let_def by (cases leap) (simp_all add: nth_tables)
  next
    case 3
    with dm m0 m32 have b: "46 \<le> r" "r < 78"
      by linarith+
    from 3 b show ?thesis
      unfolding Let_def by (cases leap) (simp_all add: nth_tables)
  next
    case 4
    with dm m0 m32 have b: "78 \<le> r" "r < 110"
      by linarith+
    from 4 b show ?thesis
      unfolding Let_def by (cases leap) (simp_all add: nth_tables)
  next
    case 5
    with dm m0 m32 have b: "110 \<le> r" "r < 142"
      by linarith+
    from 5 b show ?thesis
      unfolding Let_def by (cases leap) (simp_all add: nth_tables)
  next
    case 6
    with dm m0 m32 have b: "142 \<le> r" "r < 174"
      by linarith+
    from 6 b show ?thesis
      unfolding Let_def by (cases leap) (simp_all add: nth_tables)
  next
    case 7
    with dm m0 m32 have b: "174 \<le> r" "r < 206"
      by linarith+
    from 7 b show ?thesis
      unfolding Let_def by (cases leap) (simp_all add: nth_tables)
  next
    case 8
    with dm m0 m32 have b: "206 \<le> r" "r < 238"
      by linarith+
    from 8 b show ?thesis
      unfolding Let_def by (cases leap) (simp_all add: nth_tables)
  next
    case 9
    with dm m0 m32 have b: "238 \<le> r" "r < 270"
      by linarith+
    from 9 b show ?thesis
      unfolding Let_def by (cases leap) (simp_all add: nth_tables)
  next
    case 10
    with dm m0 m32 have b: "270 \<le> r" "r < 302"
      by linarith+
    from 10 b show ?thesis
      unfolding Let_def by (cases leap) (simp_all add: nth_tables)
  next
    case 11
    with dm m0 m32 have b: "302 \<le> r" "r < 334"
      by linarith+
    from 11 b show ?thesis
      unfolding Let_def by (cases leap) (simp_all add: nth_tables)
  next
    case 12
    with dm m0 m32 have b: "334 \<le> r"
      by linarith+
    from 12 b assms(2) show ?thesis
      unfolding Let_def by (cases leap) (simp_all add: nth_tables)
  qed
qed

lemma div_unique_int:
  fixes q r k :: int
  assumes "0 \<le> r" "r < k"
  shows "(k * q + r) div k = q"
  using assms by (simp add: div_pos_pos_trivial)

lemma mod_zero_iff_int:
  fixes q r k :: int
  assumes "0 < r" "r \<le> k"
  shows "((k * q + r) mod k = 0) = (r = k)"
proof (cases "r = k")
  case True
  then show ?thesis by simp
next
  case False
  with assms have "r mod k = r" by (simp add: mod_pos_pos_trivial)
  with False assms show ?thesis by simp
qed

lemma dby_general:
  fixes a b c e :: int
  assumes "0 \<le> b" "b \<le> 3" "0 \<le> c" "c \<le> 24" "0 \<le> e" "e \<le> 3"
  shows "days_before_year (400 * a + 100 * b + 4 * c + e + 1)
           = 146097 * a + 36524 * b + 1461 * c + 365 * e"
proof -
  define z where "z = 400 * a + 100 * b + 4 * c + e"
  have z4: "z = 4 * (100 * a + 25 * b + c) + e"
    and z100: "z = 100 * (4 * a + b) + (4 * c + e)"
    and z400: "z = 400 * a + (100 * b + 4 * c + e)"
    by (simp_all add: z_def)
  have d4: "z div 4 = 100 * a + 25 * b + c"
    unfolding z4 using assms by (intro div_unique_int) simp_all
  have d100: "z div 100 = 4 * a + b"
    unfolding z100 using assms by (intro div_unique_int) simp_all
  have d400: "z div 400 = a"
    unfolding z400 using assms by (intro div_unique_int) simp_all
  have "days_before_year (z + 1) = z * 365 + z div 4 - z div 100 + z div 400"
    by (simp add: days_before_year_def Let_def)
  then show ?thesis
    unfolding d4 d100 d400 by (simp add: z_def)
qed

lemma leap_general:
  fixes a b c e :: int
  assumes "0 \<le> b" "b \<le> 3" "0 \<le> c" "c \<le> 24" "0 \<le> e" "e \<le> 3"
  shows "is_leap (400 * a + 100 * b + 4 * c + e + 1) = (e = 3 \<and> (c \<noteq> 24 \<or> b = 3))"
proof -
  define y where "y = 400 * a + 100 * b + 4 * c + e + 1"
  have y4: "y = 4 * (100 * a + 25 * b + c) + (e + 1)"
    and y100: "y = 100 * (4 * a + b) + (4 * c + e + 1)"
    and y400: "y = 400 * a + (100 * b + 4 * c + e + 1)"
    by (simp_all add: y_def)
  have "(y mod 4 = 0) = (e + 1 = 4)"
    unfolding y4 using assms by (intro mod_zero_iff_int) simp_all
  then have m4: "(y mod 4 = 0) = (e = 3)"
    by auto
  have "(y mod 100 = 0) = (4 * c + e + 1 = 100)"
    unfolding y100 using assms by (intro mod_zero_iff_int) simp_all
  moreover have "(4 * c + e + 1 = 100) = (e = 3 \<and> c = 24)"
    using assms(3-6) by (cases "c = 24") auto
  ultimately have m100: "(y mod 100 = 0) = (e = 3 \<and> c = 24)"
    by simp
  have "(y mod 400 = 0) = (100 * b + 4 * c + e + 1 = 400)"
    unfolding y400 using assms by (intro mod_zero_iff_int) simp_all
  moreover have "(100 * b + 4 * c + e + 1 = 400) = (e = 3 \<and> c = 24 \<and> b = 3)"
    using assms by (cases "b = 3"; cases "c = 24") auto
  ultimately have m400: "(y mod 400 = 0) = (e = 3 \<and> c = 24 \<and> b = 3)"
    by simp
  show ?thesis
    unfolding y_def [symmetric] is_leap_def m4 m100 m400 by blast
qed


lemma ord2ymd_correct:
  assumes "1 \<le> n"
  shows "\<exists>y m d. ord2ymd n = (y, m, d) \<and> ymd2ord y m d = n
           \<and> 1 \<le> y \<and> 1 \<le> m \<and> m \<le> 12 \<and> 1 \<le> d \<and> d \<le> days_in_month y m
           \<and> (n \<le> MAXORDINAL \<longrightarrow> y \<le> 9999) \<and> (364878 \<le> n \<longrightarrow> 1000 \<le> y)"
proof -
  define k where "k = n - 1"
  define a where "a = k div 146097"
  define r1 where "r1 = k mod 146097"
  define b where "b = r1 div 36524"
  define r2 where "r2 = r1 mod 36524"
  define c where "c = r2 div 1461"
  define r3 where "r3 = r2 mod 1461"
  define e where "e = r3 div 365"
  define r4 where "r4 = r3 mod 365"
  have k0: "0 \<le> k" using assms by (simp add: k_def)
  have k: "k = 146097 * a + r1" and r1: "0 \<le> r1" "r1 < 146097"
    by (simp_all add: a_def r1_def)
  have r1e: "r1 = 36524 * b + r2" and r2: "0 \<le> r2" "r2 < 36524"
    by (simp_all add: b_def r2_def)
  have r2e: "r2 = 1461 * c + r3" and r3: "0 \<le> r3" "r3 < 1461"
    by (simp_all add: c_def r3_def)
  have r3e: "r3 = 365 * e + r4" and r4: "0 \<le> r4" "r4 < 365"
    by (simp_all add: e_def r4_def)
  have a0: "0 \<le> a" using k0 by (simp add: a_def pos_imp_zdiv_nonneg_iff)
  have b0: "0 \<le> b" using r1 by (simp add: b_def pos_imp_zdiv_nonneg_iff)
  have c0: "0 \<le> c" using r2 by (simp add: c_def pos_imp_zdiv_nonneg_iff)
  have e0: "0 \<le> e" using r3 by (simp add: e_def pos_imp_zdiv_nonneg_iff)
  have b4: "b \<le> 4" using r1 r1e r2 by linarith
  have c24: "c \<le> 24" using r2 r2e r3 by linarith
  have e4: "e \<le> 4" using r3 r3e r4 by linarith
  have n: "n = 146097 * a + 36524 * b + 1461 * c + 365 * e + r4 + 1"
    using k r1e r2e r3e by (simp add: k_def)
  have res: "ord2ymd n =
     (if e = 4 \<or> b = 4 then (a * 400 + 1 + b * 100 + c * 4 + e - 1, 12, 31)
      else
        (let m = (r4 + 50) div 32;
             preceding = DAYS_BEFORE_MONTH ! nat m
                + (if m > 2 \<and> (e = 3 \<and> (c \<noteq> 24 \<or> b = 3)) then 1 else 0)
         in if preceding > r4
            then (let m = m - 1;
                      preceding = preceding
                        - (DAYS_IN_MONTH ! nat m
                            + (if m = 2 \<and> (e = 3 \<and> (c \<noteq> 24 \<or> b = 3)) then 1 else 0))
                  in (a * 400 + 1 + b * 100 + c * 4 + e, m, r4 - preceding + 1))
            else (a * 400 + 1 + b * 100 + c * 4 + e, m, r4 - preceding + 1)))"
    by (simp only: ord2ymd_def Let_def k_def a_def r1_def b_def r2_def c_def r3_def e_def r4_def)
  consider (B4) "b = 4" | (E4) "b \<noteq> 4" "e = 4" | (G) "b \<noteq> 4" "e \<noteq> 4"
    by blast
  then show ?thesis
  proof cases
    case B4
    have "r2 = 0" using B4 r1 r1e r2 by linarith
    then have z: "c = 0" "e = 0" "r4 = 0"
      by (simp_all add: c_def e_def r4_def r3_def)
    have y: "ord2ymd n = (400 * a + 100 * 3 + 4 * 24 + 3 + 1, 12, 31)"
      using res B4 z by simp
    have d: "days_before_year (400 * a + 100 * 3 + 4 * 24 + 3 + 1)
               = 146097 * a + 36524 * 3 + 1461 * 24 + 365 * 3"
      by (rule dby_general) simp_all
    have l: "is_leap (400 * a + 100 * 3 + 4 * 24 + 3 + 1)"
      by (subst leap_general) simp_all
    have "ymd2ord (400 * a + 100 * 3 + 4 * 24 + 3 + 1) 12 31 = n"
      unfolding ymd2ord_def d days_before_month_def using l n B4 z
      by (simp add: nth_tables)
    moreover have "31 \<le> days_in_month (400 * a + 100 * 3 + 4 * 24 + 3 + 1) 12"
      by (simp add: days_in_month_def nth_tables)
    moreover have "n \<le> MAXORDINAL \<longrightarrow> 400 * a + 100 * 3 + 4 * 24 + 3 + 1 \<le> 9999"
      using n B4 z a0 unfolding MAXORDINAL_def by linarith
    moreover have "364878 \<le> n \<longrightarrow> 1000 \<le> 400 * a + 100 * 3 + 4 * 24 + 3 + 1"
      using n B4 z a0 by linarith
    moreover have "1 \<le> 400 * a + 100 * 3 + 4 * 24 + 3 + 1"
      using a0 by simp
    ultimately show ?thesis using y by simp
  next
    case E4
    have r40: "r4 = 0" using E4 r3 r3e r4 by linarith
    have c23: "c \<le> 23" using E4 r2 r2e r3e r4 by linarith
    have b3: "b \<le> 3" using E4 b4 by simp
    have y: "ord2ymd n = (400 * a + 100 * b + 4 * c + 3 + 1, 12, 31)"
      using res E4 by (simp add: algebra_simps)
    have d: "days_before_year (400 * a + 100 * b + 4 * c + 3 + 1)
               = 146097 * a + 36524 * b + 1461 * c + 365 * 3"
      using b0 b3 c0 c23 by (intro dby_general) simp_all
    have l: "is_leap (400 * a + 100 * b + 4 * c + 3 + 1)"
      using b0 b3 c0 c23 by (subst leap_general) simp_all
    have "ymd2ord (400 * a + 100 * b + 4 * c + 3 + 1) 12 31 = n"
      unfolding ymd2ord_def d days_before_month_def using l n E4 r40
      by (simp add: nth_tables)
    moreover have "31 \<le> days_in_month (400 * a + 100 * b + 4 * c + 3 + 1) 12"
      by (simp add: days_in_month_def nth_tables)
    moreover have "n \<le> MAXORDINAL \<longrightarrow> 400 * a + 100 * b + 4 * c + 3 + 1 \<le> 9999"
      using n E4 r40 a0 b0 c0 b3 c23 unfolding MAXORDINAL_def by linarith
    moreover have "364878 \<le> n \<longrightarrow> 1000 \<le> 400 * a + 100 * b + 4 * c + 3 + 1"
      using n E4 r40 a0 b0 c0 b3 c23 by linarith
    moreover have "1 \<le> 400 * a + 100 * b + 4 * c + 3 + 1"
      using a0 b0 c0 by simp
    ultimately show ?thesis using y by simp
  next
    case G
    have b3: "b \<le> 3" and e3: "e \<le> 3" using G b4 e4 by simp_all
    define Y where "Y = 400 * a + 100 * b + 4 * c + e + 1"
    define L where "L = (e = 3 \<and> (c \<noteq> 24 \<or> b = 3))"
    have Ya: "a * 400 + 1 + b * 100 + c * 4 + e = Y"
      by (simp add: Y_def)
    have d: "days_before_year Y = 146097 * a + 36524 * b + 1461 * c + 365 * e"
      unfolding Y_def using b0 b3 c0 c24 e0 e3 by (rule dby_general)
    have l: "is_leap Y = L"
      unfolding Y_def L_def using b0 b3 c0 c24 e0 e3 by (rule leap_general)
    obtain y' m d where o: "ord2ymd n = (y', m, d)"
      by (cases "ord2ymd n") auto
    have "case ord2ymd n of (y', m, d) \<Rightarrow>
           y' = Y \<and> 1 \<le> m \<and> m \<le> 12 \<and> 1 \<le> d
           \<and> DAYS_BEFORE_MONTH ! nat m + (if m > 2 \<and> L then 1 else 0) + d = r4 + 1
           \<and> d \<le> (if m = 2 \<and> L then 29 else DAYS_IN_MONTH ! nat m)"
      using month_day [OF r4, where leap = L and y = Y] G unfolding res Ya L_def [symmetric]
      by (simp only: if_False simp_thms)
    then have yY: "y' = Y" and m: "1 \<le> m" "m \<le> 12" and d1: "1 \<le> d"
      and sum: "DAYS_BEFORE_MONTH ! nat m + (if m > 2 \<and> L then 1 else 0) + d = r4 + 1"
      and dhi: "d \<le> (if m = 2 \<and> L then 29 else DAYS_IN_MONTH ! nat m)"
      unfolding o by simp_all
    have "ymd2ord Y m d = n"
      unfolding ymd2ord_def d days_before_month_def l using sum n by simp
    moreover have "d \<le> days_in_month Y m"
      unfolding days_in_month_def l using dhi by simp
    moreover have "n \<le> MAXORDINAL \<longrightarrow> Y \<le> 9999"
      using n r4 a0 b0 c0 e0 b3 c24 e3 unfolding Y_def MAXORDINAL_def by linarith
    moreover have "364878 \<le> n \<longrightarrow> 1000 \<le> Y"
      using n r4 a0 b0 c0 e0 b3 c24 e3 unfolding Y_def by linarith
    moreover have "1 \<le> Y"
      using a0 b0 c0 e0 by (simp add: Y_def)
    ultimately show ?thesis using o yY m d1 by simp
  qed
qed

lemma digits_lt10: "k < 10 \<Longrightarrow> digits k = [digit_char k]"
  by (subst digits.simps) simp

lemma digits_ge10: "10 \<le> k \<Longrightarrow> digits k = digits (k div 10) @ [digit_char (k mod 10)]"
  by (subst digits.simps) simp

lemma digit_char_0: "digit_char 0 = CHR ''0''"
  by code_simp

lemma split10: "int m = 10 * int (m div 10) + int (m mod 10)"
proof -
  have "int m = int (10 * (m div 10) + m mod 10)"
    by (rule arg_cong [of _ _ int]) simp
  then show ?thesis
    by (simp only: of_nat_add of_nat_mult of_nat_numeral)
qed

lemma zfill2_digits:
  assumes "k < 100"
  shows "zfill 2 (digits k) = [digit_char (k div 10), digit_char (k mod 10)]"
proof (cases "k < 10")
  case True
  then show ?thesis
    by (simp add: digits_lt10 zfill_def digit_char_0)
next
  case False
  with assms have "k div 10 < 10" by simp
  with False show ?thesis
    by (simp add: digits_ge10 digits_lt10 zfill_def)
qed

lemma replicate_small:
  "replicate 3 x = [x, x, x]" "replicate 2 x = [x, x]" "replicate 1 x = [x]"
  by (simp_all add: numeral_3_eq_3 numeral_2_eq_2)

lemma zfill4_digits:
  assumes "k < 10000"
  shows "zfill 4 (digits k)
           = [digit_char (k div 1000), digit_char (k div 100 mod 10),
              digit_char (k div 10 mod 10), digit_char (k mod 10)]"
proof -
  have dd: "k div 10 div 10 = k div 100" "k div 100 div 10 = k div 1000"
    by (simp_all add: div_mult2_eq [symmetric])
  consider "k < 10" | "10 \<le> k" "k < 100" | "100 \<le> k" "k < 1000" | "1000 \<le> k"
    by linarith
  then show ?thesis
  proof cases
    case 1
    then have "digits k = [digit_char k]"
      by (rule digits_lt10)
    moreover from 1 have "k div 1000 = 0" "k div 100 mod 10 = 0" "k div 10 mod 10 = 0" "k mod 10 = k"
      by simp_all
    ultimately show ?thesis
      by (simp add: zfill_def digit_char_0 replicate_small)
  next
    case 2
    then have "k div 10 < 10" by simp
    then have "digits (k div 10) = [digit_char (k div 10)]"
      by (rule digits_lt10)
    with 2 have "digits k = [digit_char (k div 10), digit_char (k mod 10)]"
      by (simp only: digits_ge10 append_Cons append_Nil)
    moreover from 2 have "k div 1000 = 0" "k div 100 mod 10 = 0" "k div 10 mod 10 = k div 10"
      by simp_all
    ultimately show ?thesis
      by (simp add: zfill_def digit_char_0 replicate_small)
  next
    case 3
    then have a: "10 \<le> k" "10 \<le> k div 10" "k div 100 < 10"
      by arith+
    have "digits (k div 100) = [digit_char (k div 100)]"
      using a(3) by (rule digits_lt10)
    then have "digits (k div 10) = [digit_char (k div 100), digit_char (k div 10 mod 10)]"
      using digits_ge10 [OF a(2)] by (simp only: dd append_Cons append_Nil)
    then have "digits k = [digit_char (k div 100), digit_char (k div 10 mod 10),
                           digit_char (k mod 10)]"
      using digits_ge10 [OF a(1)] by (simp only: append_Cons append_Nil)
    moreover from 3 have "k div 1000 = 0" "k div 100 mod 10 = k div 100"
      by simp_all
    ultimately show ?thesis
      by (simp add: zfill_def digit_char_0 replicate_small)
  next
    case 4
    with assms have a: "10 \<le> k" "10 \<le> k div 10" "10 \<le> k div 100" "k div 1000 < 10"
      by arith+
    have "digits (k div 1000) = [digit_char (k div 1000)]"
      using a(4) by (rule digits_lt10)
    then have "digits (k div 100) = [digit_char (k div 1000), digit_char (k div 100 mod 10)]"
      using digits_ge10 [OF a(3)] by (simp only: dd append_Cons append_Nil)
    then have "digits (k div 10) = [digit_char (k div 1000), digit_char (k div 100 mod 10),
                                    digit_char (k div 10 mod 10)]"
      using digits_ge10 [OF a(2)] by (simp only: dd append_Cons append_Nil)
    then have "digits k = [digit_char (k div 1000), digit_char (k div 100 mod 10),
                           digit_char (k div 10 mod 10), digit_char (k mod 10)]"
      using digits_ge10 [OF a(1)] by (simp only: append_Cons append_Nil)
    then show ?thesis
      by (simp add: zfill_def)
  qed
qed

lemma is_digit_digit_char: "d < 10 \<Longrightarrow> is_digit (digit_char d)"
  by (simp add: is_digit_def digit_char_def)

lemma of_char_digit_char: "d < 10 \<Longrightarrow> int (of_char (digit_char d)) - 48 = int d"
  by (simp add: digit_char_def)

lemma read_digits2:
  assumes "k < 100"
  shows "read_digits [digit_char (k div 10), digit_char (k mod 10)] = Some (int k)"
proof -
  have "k div 10 < 10" "k mod 10 < 10" using assms by simp_all
  then show ?thesis
    using split10 [of k]
    by (simp add: read_digits_def is_digit_digit_char of_char_digit_char)
qed

lemma read_digits4:
  assumes "k < 10000"
  shows "read_digits [digit_char (k div 1000), digit_char (k div 100 mod 10),
              digit_char (k div 10 mod 10), digit_char (k mod 10)] = Some (int k)"
proof -
  have lt: "k div 1000 < 10" "k div 100 mod 10 < 10" "k div 10 mod 10 < 10" "k mod 10 < 10"
    using assms by simp_all
  have e1: "int k = 10 * int (k div 10) + int (k mod 10)"
    by (rule split10)
  have e2: "int (k div 10) = 10 * int (k div 100) + int (k div 10 mod 10)"
    using split10 [of "k div 10"] by (simp add: div_mult2_eq [symmetric])
  have e3: "int (k div 100) = 10 * int (k div 1000) + int (k div 100 mod 10)"
    using split10 [of "k div 100"] by (simp add: div_mult2_eq [symmetric])
  have "int k = 10 * (10 * (10 * int (k div 1000) + int (k div 100 mod 10))
                             + int (k div 10 mod 10)) + int (k mod 10)"
    by (subst e1, subst e2, subst e3) (rule refl)
  with lt show ?thesis
    by (simp add: read_digits_def is_digit_digit_char of_char_digit_char)
qed

lemma zfill2_roundtrip:
  assumes "0 \<le> i" "i < 100"
  shows "\<exists>a b. zfill 2 (str_int i) = [a, b] \<and> read_digits [a, b] = Some i"
proof -
  have k: "nat i < 100" using assms by simp
  have "str_int i = digits (nat i)"
    using assms by (simp add: str_int_def)
  with zfill2_digits [OF k] read_digits2 [OF k] assms show ?thesis
    by simp
qed

lemma zfill4_roundtrip:
  assumes "0 \<le> i" "i < 10000"
  shows "\<exists>a b c d. zfill 4 (str_int i) = [a, b, c, d] \<and> read_digits [a, b, c, d] = Some i"
proof -
  have k: "nat i < 10000" using assms by simp
  have "str_int i = digits (nat i)"
    using assms by (simp add: str_int_def)
  with zfill4_digits [OF k] read_digits4 [OF k] assms show ?thesis
    by simp
qed

lemma strftime_iso_roundtrip:
  assumes "valid_datetime dt"
  shows "length (strftime_iso dt) = 25 \<and> drop 19 (strftime_iso dt) = ''+08:00''
         \<and> read_iso8601 (strftime_iso dt) = Some (dt\<lparr>microsecond := 0\<rparr>)"
proof -
  have dim: "days_in_month (year dt) (month dt) < 100"
  proof -
    have "1 \<le> month dt" "month dt \<le> 12"
      using assms by (simp_all add: valid_datetime_def)
    then have "month dt = 1 \<or> month dt = 2 \<or> month dt = 3 \<or> month dt = 4 \<or> month dt = 5
      \<or> month dt = 6 \<or> month dt = 7 \<or> month dt = 8 \<or> month dt = 9 \<or> month dt = 10
      \<or> month dt = 11 \<or> month dt = 12"
      by arith
    then show ?thesis
      by (auto simp: days_in_month_def nth_tables)
  qed
  have r: "0 \<le> year dt" "year dt < 10000" "0 \<le> month dt" "month dt < 100"
    "0 \<le> day dt" "day dt < 100" "0 \<le> hour dt" "hour dt < 100"
    "0 \<le> minute dt" "minute dt < 100" "0 \<le> second dt" "second dt < 100"
    using assms dim by (simp_all add: valid_datetime_def)
  obtain y1 y2 y3 y4 where y: "zfill 4 (str_int (year dt)) = [y1, y2, y3, y4]"
    "read_digits [y1, y2, y3, y4] = Some (year dt)"
    using zfill4_roundtrip [OF r(1,2)] by blast
  obtain m1 m2 where m: "zfill 2 (str_int (month dt)) = [m1, m2]"
    "read_digits [m1, m2] = Some (month dt)"
    using zfill2_roundtrip [OF r(3,4)] by blast
  obtain d1 d2 where d: "zfill 2 (str_int (day dt)) = [d1, d2]"
    "read_digits [d1, d2] = Some (day dt)"
    using zfill2_roundtrip [OF r(5,6)] by blast
  obtain h1 h2 where h: "zfill 2 (str_int (hour dt)) = [h1, h2]"
    "read_digits [h1, h2] = Some (hour dt)"
    using zfill2_roundtrip [OF r(7,8)] by blast
  obtain n1 n2 where n: "zfill 2 (str_int (minute dt)) = [n1, n2]"
    "read_digits [n1, n2] = Some (minute dt)"
    using zfill2_roundtrip [OF r(9,10)] by blast
  obtain s1 s2 where s: "zfill 2 (str_int (second dt)) = [s1, s2]"
    "read_digits [s1, s2] = Some (second dt)"
    using zfill2_roundtrip [OF r(11,12)] by blast
  have f: "strftime_iso dt
             = [y1, y2, y3, y4, CHR ''-'', m1, m2, CHR ''-'', d1, d2, CHR ''T'',
                h1, h2, CHR '':'', n1, n2, CHR '':'', s1, s2,
                CHR ''+'', CHR ''0'', CHR ''8'', CHR '':'', CHR ''0'', CHR ''0'']"
    by (simp add: strftime_iso_def y(1) m(1) d(1) h(1) n(1) s(1))
  have v: "valid_datetime \<lparr>year = year dt, month = month dt, day = day dt, hour = hour dt,
                            minute = minute dt, second = second dt, microsecond = 0\<rparr>"
    using assms by (simp add: valid_datetime_def)
  have e: "dt\<lparr>microsecond := 0\<rparr>
             = \<lparr>year = year dt, month = month dt, day = day dt, hour = hour dt,
                 minute = minute dt, second = second dt, microsecond = 0\<rparr>"
    by simp
  have "read_iso8601 (strftime_iso dt) = Some (dt\<lparr>microsecond := 0\<rparr>)"
    unfolding f e read_iso8601_def
    by (simp add: y(2) m(2) d(2) h(2) n(2) s(2) v Let_def)
  then show ?thesis
    by (simp add: f)
qed

lemma add_hours_correct:
  assumes "valid_datetime dt" and "representable (seconds_of dt + 3600 * h)"
  shows "\<exists>dt'. add_hours dt h = Inr dt' \<and> valid_datetime dt' \<and> 1000 \<le> year dt'
           \<and> seconds_of dt' = seconds_of dt + 3600 * h
           \<and> microsecond dt' = microsecond dt"
proof -
  define total where "total = hour dt * 3600 + minute dt * 60 + second dt + h * 3600"
  define q where "q = total div 86400"
  define s where "s = total mod 86400"
  define hh where "hh = s div 3600"
  define rm where "rm = s mod 3600"
  define mm where "mm = rm div 60"
  define ss where "ss = rm mod 60"
  define days where "days = ymd2ord (year dt) (month dt) (day dt) + q"
  have t: "total = 86400 * q + s" and s: "0 \<le> s" "s < 86400"
    by (simp_all add: q_def s_def)
  have se: "s = 3600 * hh + rm" and rm: "0 \<le> rm" "rm < 3600"
    by (simp_all add: hh_def rm_def)
  have re: "rm = 60 * mm + ss" and ss: "0 \<le> ss" "ss < 60"
    by (simp_all add: mm_def ss_def)
  have hh0: "0 \<le> hh" using s by (simp add: hh_def pos_imp_zdiv_nonneg_iff)
  have mm0: "0 \<le> mm" using rm by (simp add: mm_def pos_imp_zdiv_nonneg_iff)
  have hh24: "hh < 24" using s se rm by linarith
  have mm60: "mm < 60" using rm re ss by linarith
  have T: "seconds_of dt + 3600 * h = days * 86400 + s"
    using t by (simp add: seconds_of_def days_def total_def algebra_simps)
  have first: "ymd2ord 1000 1 1 = 364878" and last: "ymd2ord 9999 12 31 = 3652059"
    by code_simp+
  have rep: "364878 * 86400 \<le> days * 86400 + s" "days * 86400 + s < 3652060 * 86400"
    using assms(2) unfolding T representable_def first last by simp_all
  have d1000: "364878 \<le> days" and dmax: "days \<le> MAXORDINAL"
    using rep s unfolding MAXORDINAL_def by linarith+
  then have d1: "1 \<le> days"
    by simp
  obtain y m d where o: "ord2ymd days = (y, m, d)" and yo: "ymd2ord y m d = days"
    and rng: "1 \<le> y" "1 \<le> m" "m \<le> 12" "1 \<le> d" "d \<le> days_in_month y m"
    and ymax: "days \<le> MAXORDINAL \<longrightarrow> y \<le> 9999"
    and ymin: "364878 \<le> days \<longrightarrow> 1000 \<le> y"
    using ord2ymd_correct [OF d1] by blast
  define dt' where "dt' = \<lparr>year = y, month = m, day = d, hour = hh, minute = mm,
                            second = ss, microsecond = microsecond dt\<rparr>"
  have "add_hours dt h = Inr dt'"
    using d1 dmax o
    by (simp add: add_hours_def Let_def total_def [symmetric] q_def [symmetric]
          s_def [symmetric] days_def [symmetric] hh_def [symmetric] rm_def [symmetric]
          mm_def [symmetric] ss_def [symmetric] dt'_def)
  moreover have "valid_datetime dt'"
    using rng ymax dmax hh0 hh24 mm0 mm60 ss assms(1)
    by (simp add: valid_datetime_def dt'_def)
  moreover have "1000 \<le> year dt'"
    using ymin d1000 by (simp add: dt'_def)
  moreover have "seconds_of dt' = seconds_of dt + 3600 * h"
    unfolding T using yo se re by (simp add: seconds_of_def dt'_def)
  moreover have "microsecond dt' = microsecond dt"
    by (simp add: dt'_def)
  ultimately show ?thesis by blast
qed

section \<open>Properties of the publish scheduler\<close>

lemma strip_chars_Nil: "strip_chars P s = [] \<longleftrightarrow> (\<forall>c \<in> set s. P c)"
proof
  assume "strip_chars P s = []"
  then have d: "dropWhile P (rev (dropWhile P s)) = []"
    by (simp add: strip_chars_def)
  show "\<forall>c \<in> set s. P c"
  proof (cases "dropWhile P s")
    case Nil
    then show ?thesis by (simp add: dropWhile_eq_Nil_conv)
  next
    case (Cons x xs)
    then have "\<not> P x"
      by (metis hd_dropWhile list.distinct(1) list.sel(1))
    moreover from d have "\<forall>c \<in> set (rev (x # xs)). P c"
      unfolding Cons by (simp only: dropWhile_eq_Nil_conv)
    ultimately show ?thesis by simp
  qed
next
  assume "\<forall>c \<in> set s. P c"
  then show "strip_chars P s = []"
    by (auto simp: strip_chars_def dest: set_dropWhileD)
qed

text \<open>
  C7. For every content that is empty or has only whitespace characters, \<open>publish\<close>
  returns a failure (with the message \<open>Content is empty\<close>), makes no request, neither
  the lookup of the social set nor the submission, and leaves the publisher, and so its
  cached social set identifier, as it was.
\<close>

theorem publish_empty_content:
  assumes "\<forall>c \<in> set content. is_space c"
  shows "\<exists>r. publish env self content = (r, self, [])
           \<and> \<not> success r \<and> error_msg r = Some ''Content is empty''"
proof -
  from assms have "strip content = []"
    by (simp add: strip_def strip_chars_Nil)
  then show ?thesis
    by (simp add: publish_def failure_def)
qed

text \<open>The theorem at a content of a space and a newline.\<close>

theorem publish_empty_content_witness:
  "is_space (CHR '' '') \<and> is_space (CHR 0x0A)
   \<and> (\<exists>r. publish (example_env created) (new_publisher ''key'' 6 17 False) ('' '' @ NL)
             = (r, new_publisher ''key'' 6 17 False, [])
          \<and> \<not> success r \<and> error_msg r = Some ''Content is empty'')"
proof -
  have sp: "is_space (CHR '' '')" "is_space (CHR 0x0A)"
    by (simp_all add: is_space_def)
  then have h: "\<forall>c \<in> set ('' '' @ NL). is_space c"
    by simp
  from publish_empty_content [OF h] sp show ?thesis
    by blast
qed

lemma handler_failed: "success (handler e) = False" "\<exists>m. error_msg (handler e) = Some m"
  by (cases e; simp add: failure_def)+

lemma publish_invariant:
  "(success (fst (publish env self content))
      \<longrightarrow> url (fst (publish env self content)) \<noteq> None
        \<and> draft_id (fst (publish env self content)) \<noteq> None
        \<and> error_msg (fst (publish env self content)) = None)
   \<and> (\<not> success (fst (publish env self content))
      \<longrightarrow> error_msg (fst (publish env self content)) \<noteq> None)"
  by (simp add: publish_def Let_def failure_def handler_failed split: prod.splits sum.splits)

text \<open>
  C10. Every result \<open>r\<close> that \<open>publish\<close> returns, for every behaviour of the network and
  of the clock, every state of the publisher and every content, satisfies the invariant:
  when \<open>success\<close> is true, \<open>url\<close> and \<open>draft_id\<close> are present and \<open>error_msg\<close> is absent;
  when \<open>success\<close> is false, \<open>error_msg\<close> is present.
\<close>

theorem publish_result_invariant:
  assumes "publish env self content = (r, self', trace)"
  shows "(success r \<longrightarrow> url r \<noteq> None \<and> draft_id r \<noteq> None \<and> error_msg r = None)
       \<and> (\<not> success r \<longrightarrow> error_msg r \<noteq> None)"
  using assms publish_invariant [of env self content] by simp

text \<open>The theorem at a submission that is answered with 201 and an identifier, which
  succeeds, and at one that is answered with 429, which fails.\<close>

theorem publish_result_invariant_witness:
  "success (fst (publish (example_env created) (new_publisher ''key'' 6 17 False) ''gm''))
   \<and> url (fst (publish (example_env created) (new_publisher ''key'' 6 17 False) ''gm'')) \<noteq> None
   \<and> draft_id (fst (publish (example_env created) (new_publisher ''key'' 6 17 False) ''gm'')) \<noteq> None
   \<and> error_msg (fst (publish (example_env created) (new_publisher ''key'' 6 17 False) ''gm'')) = None
   \<and> \<not> success (fst (publish (example_env rate_limited) (new_publisher ''key'' 6 17 False) ''gm''))
   \<and> error_msg (fst (publish (example_env rate_limited) (new_publisher ''key'' 6 17 False) ''gm''))
       \<noteq> None"
proof -
  let ?ok = "publish (example_env created) (new_publisher ''key'' 6 17 False) ''gm''"
  let ?ko = "publish (example_env rate_limited) (new_publisher ''key'' 6 17 False) ''gm''"
  have ok: "?ok = (fst ?ok, fst (snd ?ok), snd (snd ?ok))"
    and ko: "?ko = (fst ?ko, fst (snd ?ko), snd (snd ?ko))"
    by simp_all
  have s: "success (fst ?ok)" and f: "\<not> success (fst ?ko)"
    by code_simp+
  from publish_result_invariant [OF ok] publish_result_invariant [OF ko] s f
  show ?thesis by blast
qed

lemma error_message_object:
  "resp_json resp = Inr (JObj kvs)
     \<Longrightarrow> error_message env resp = field_message env (status_code resp) kvs"
  by (simp add: error_message_def field_message_def extract_field_def Let_def
           split: option.splits)

lemma error_message_not_json:
  "resp_json resp = Inl e
     \<Longrightarrow> error_message env resp
          = ''Typefully API error: '' @ str_int (status_code resp) @ '' - '' @ resp_text resp"
  by (simp add: error_message_def Let_def)

lemma publish_error_path:
  assumes "strip content \<noteq> []"
    and "get_social_set_id env self = (sid, self', trace)"
    and "truthy sid"
    and "publish_at_of env self' = Inr pa"
    and "http_post env (base_url self' @ ''/social-sets/'' @ py_str env sid @ ''/drafts'')
           \<lparr>x_enabled = True, x_posts = [content], publish_at = pa\<rparr> = Inr resp"
    and "status_code resp \<noteq> 200" and "status_code resp \<noteq> 201"
  shows "publish env self content
           = (failure (error_message env resp), self',
              trace @ [HttpPost (base_url self' @ ''/social-sets/'' @ py_str env sid @ ''/drafts'')
                        \<lparr>x_enabled = True, x_posts = [content], publish_at = pa\<rparr>])"
proof -
  from assms(1) have "content \<noteq> []"
    by (auto simp: strip_def strip_chars_def)
  with assms show ?thesis
    by (simp add: publish_def Let_def)
qed

text \<open>
  C8, as amended. When the content is not blank, the social set is resolved and the
  submission is answered with a response \<open>resp\<close> whose status is neither 200 nor 201,
  \<open>publish\<close> returns a failure with a message \<open>m\<close>. When the body of the response is a
  JSON object, \<open>m\<close> is taken from its field \<open>error\<close>, else \<open>message\<close>, else \<open>detail\<close>,
  and is the status message alone, without the text of the response, when the object
  has none of the three. When the body is not JSON, \<open>m\<close> is the status message followed
  by the text of the response. A status 429 with a JSON object that has the field
  \<open>message\<close> with the value \<open>rate limited\<close>, and no field \<open>error\<close>, gives a message that
  contains \<open>rate limited\<close>.
\<close>

theorem publish_error_status:
  assumes "strip content \<noteq> []"
    and "get_social_set_id env self = (sid, self', trace)"
    and "truthy sid"
    and "publish_at_of env self' = Inr pa"
    and "http_post env (base_url self' @ ''/social-sets/'' @ py_str env sid @ ''/drafts'')
           \<lparr>x_enabled = True, x_posts = [content], publish_at = pa\<rparr> = Inr resp"
    and "status_code resp \<noteq> 200" and "status_code resp \<noteq> 201"
  shows "\<exists>r m reqs. publish env self content = (r, self', reqs)
           \<and> \<not> success r \<and> error_msg r = Some m
           \<and> (\<forall>kvs. resp_json resp = Inr (JObj kvs)
                 \<longrightarrow> m = field_message env (status_code resp) kvs)
           \<and> (\<forall>e. resp_json resp = Inl e
                 \<longrightarrow> m = ''Typefully API error: '' @ str_int (status_code resp)
                           @ '' - '' @ resp_text resp)
           \<and> (\<forall>kvs. status_code resp = 429 \<and> resp_json resp = Inr (JObj kvs)
                   \<and> map_of kvs ''error'' = None
                   \<and> map_of kvs ''message'' = Some (JStr ''rate limited'')
                 \<longrightarrow> m = ''Typefully error: rate limited'' \<and> sublist ''rate limited'' m)"
proof -
  let ?m = "error_message env resp"
  have a: "\<forall>kvs. resp_json resp = Inr (JObj kvs)
                 \<longrightarrow> ?m = field_message env (status_code resp) kvs"
    by (simp add: error_message_object)
  have b: "\<forall>e. resp_json resp = Inl e
                 \<longrightarrow> ?m = ''Typefully API error: '' @ str_int (status_code resp)
                           @ '' - '' @ resp_text resp"
    by (simp add: error_message_not_json)
  have s: "sublist ''rate limited'' ''Typefully error: rate limited''"
    by (rule sublist_appendI [of _ "''Typefully error: ''" "[]", simplified])
  have c: "\<forall>kvs. status_code resp = 429 \<and> resp_json resp = Inr (JObj kvs)
                   \<and> map_of kvs ''error'' = None
                   \<and> map_of kvs ''message'' = Some (JStr ''rate limited'')
                 \<longrightarrow> ?m = ''Typefully error: rate limited'' \<and> sublist ''rate limited'' ?m"
    using s by (auto simp: error_message_object field_message_def)
  have "publish env self content
           = (failure ?m, self',
              trace @ [HttpPost (base_url self' @ ''/social-sets/'' @ py_str env sid @ ''/drafts'')
                        \<lparr>x_enabled = True, x_posts = [content], publish_at = pa\<rparr>])"
    using assms by (rule publish_error_path)
  moreover have "\<not> success (failure ?m)" "error_msg (failure ?m) = Some ?m"
    by (simp_all add: failure_def)
  ultimately show ?thesis using a b c by blast
qed

text \<open>The theorem at the specification's example: a submission that is answered with
  429 and the body \<open>{"message": "rate limited"}\<close>.\<close>

theorem publish_error_status_witness:
  "error_msg (fst (publish (example_env rate_limited) (new_publisher ''key'' 6 17 True) ''gm''))
     = Some ''Typefully error: rate limited''
   \<and> sublist ''rate limited'' ''Typefully error: rate limited''"
proof -
  let ?env = "example_env rate_limited"
  let ?self = "new_publisher ''key'' 6 17 True"
  let ?self' = "?self\<lparr>social_set_id := JInt 42\<rparr>"
  have h1: "strip ''gm'' \<noteq> []"
    by code_simp
  have h2: "get_social_set_id ?env ?self
              = (JInt 42, ?self', [HttpGet ''https://api.typefully.com/v2/social-sets''])"
    by code_simp
  have h3: "truthy (JInt 42)"
    by simp
  have h4: "publish_at_of ?env ?self' = Inr ''now''"
    by (simp add: publish_at_of_def new_publisher_def)
  have h5: "http_post ?env (base_url ?self' @ ''/social-sets/'' @ py_str ?env (JInt 42) @ ''/drafts'')
              \<lparr>x_enabled = True, x_posts = [''gm''], publish_at = ''now''\<rparr> = Inr rate_limited"
    by (simp add: example_env_def)
  have h6: "status_code rate_limited \<noteq> 200" and h7: "status_code rate_limited \<noteq> 201"
    by (simp_all add: rate_limited_def)
  obtain r m reqs where p: "publish ?env ?self ''gm'' = (r, ?self', reqs)"
    and m: "error_msg r = Some m"
    and lim: "\<forall>kvs. status_code rate_limited = 429 \<and> resp_json rate_limited = Inr (JObj kvs)
                   \<and> map_of kvs ''error'' = None
                   \<and> map_of kvs ''message'' = Some (JStr ''rate limited'')
                 \<longrightarrow> m = ''Typefully error: rate limited'' \<and> sublist ''rate limited'' m"
    using publish_error_status [OF h1 h2 h3 h4 h5 h6 h7] by blast
  have "status_code rate_limited = 429
        \<and> resp_json rate_limited = Inr (JObj [(''message'', JStr ''rate limited'')])
        \<and> map_of [(''message'', JStr ''rate limited'')] ''error'' = None
        \<and> map_of [(''message'', JStr ''rate limited'')] ''message'' = Some (JStr ''rate limited'')"
    by (simp add: rate_limited_def)
  with lim have m_eq: "m = ''Typefully error: rate limited''"
    and sub: "sublist ''rate limited'' m"
    by blast+
  from sub have "sublist ''rate limited'' ''Typefully error: rate limited''"
    unfolding m_eq .
  with p m m_eq show ?thesis by simp
qed

text \<open>
  C8 as stated fails for a body that is a JSON object without any of the three fields:
  the message of a 500 with the body \<open>{"code": 17}\<close> is the status message, and the text
  of the response is no part of it.
\<close>

theorem publish_error_status_no_fields:
  "error_msg (fst (publish (example_env no_fields) (new_publisher ''key'' 6 17 True) ''gm''))
     = Some ''Typefully API error: 500''
   \<and> resp_json no_fields = Inr (JObj [(''code'', JInt 17)])
   \<and> \<not> sublist (resp_text no_fields) ''Typefully API error: 500''"
  by code_simp

text \<open>
  C4. In immediate mode the publish time is the literal \<open>now\<close>, whatever the delay and
  the clock. In delayed mode, when the clock reads a date and time \<open>now_sgt\<close> of the
  UTC+8 zone and the instant \<open>hours_delay\<close> hours later is in a year from 1000 to 9999,
  the publish time is a text of 25 characters that ends with \<open>+08:00\<close> and that reads,
  as an ISO 8601 timestamp of second precision, as a valid date and time \<open>dt\<close> without
  microseconds whose instant is exactly that of \<open>now_sgt\<close> plus \<open>3600 * hours_delay\<close>
  seconds. (Outside these years the sum is an \<open>OverflowError\<close>, or a year that
  \<open>strftime\<close> writes with fewer than four digits on some platforms.)
\<close>

theorem publish_at_iso8601:
  "(publish_now self \<longrightarrow> publish_at_of env self = Inr ''now'')
   \<and> (\<not> publish_now self \<and> valid_datetime (now_sgt env)
        \<and> representable (seconds_of (now_sgt env) + 3600 * hours_delay self)
      \<longrightarrow> (\<exists>s dt. publish_at_of env self = Inr s
             \<and> length s = 25 \<and> drop 19 s = ''+08:00''
             \<and> read_iso8601 s = Some dt \<and> valid_datetime dt \<and> 1000 \<le> year dt
             \<and> microsecond dt = 0
             \<and> seconds_of dt = seconds_of (now_sgt env) + 3600 * hours_delay self))"
proof (intro conjI impI)
  assume "publish_now self"
  then show "publish_at_of env self = Inr ''now''"
    by (simp add: publish_at_of_def)
next
  assume a: "\<not> publish_now self \<and> valid_datetime (now_sgt env)
        \<and> representable (seconds_of (now_sgt env) + 3600 * hours_delay self)"
  then obtain dt' where ah: "add_hours (now_sgt env) (hours_delay self) = Inr dt'"
    and v: "valid_datetime dt'" and y: "1000 \<le> year dt'"
    and sec: "seconds_of dt' = seconds_of (now_sgt env) + 3600 * hours_delay self"
    using add_hours_correct by blast
  let ?dt = "dt'\<lparr>microsecond := 0\<rparr>"
  have p: "publish_at_of env self = Inr (strftime_iso dt')"
    using a ah by (simp add: publish_at_of_def calculate_publish_time_def)
  have "valid_datetime ?dt" "1000 \<le> year ?dt" "microsecond ?dt = 0"
    "seconds_of ?dt = seconds_of dt'"
    using v y by (simp_all add: valid_datetime_def seconds_of_def)
  with p sec strftime_iso_roundtrip [OF v]
  show "\<exists>s dt. publish_at_of env self = Inr s
             \<and> length s = 25 \<and> drop 19 s = ''+08:00''
             \<and> read_iso8601 s = Some dt \<and> valid_datetime dt \<and> 1000 \<le> year dt
             \<and> microsecond dt = 0
             \<and> seconds_of dt = seconds_of (now_sgt env) + 3600 * hours_delay self"
    by auto
qed

text \<open>The theorem at the clock 2024-12-28 11:00:00 and a delay of 6 hours.\<close>

theorem publish_at_iso8601_witness:
  "publish_at_of (example_env created) (new_publisher ''key'' 6 17 True) = Inr ''now''
   \<and> publish_at_of (example_env created) (new_publisher ''key'' 6 17 False)
       = Inr ''2024-12-28T17:00:00+08:00''
   \<and> (\<exists>dt. read_iso8601 ''2024-12-28T17:00:00+08:00'' = Some dt
          \<and> seconds_of dt = seconds_of (now_sgt (example_env created)) + 3600 * 6)"
proof -
  let ?env = "example_env created"
  let ?now = "new_publisher ''key'' 6 17 True"
  let ?later = "new_publisher ''key'' 6 17 False"
  have n: "publish_now ?now" and l: "\<not> publish_now ?later"
    and h: "hours_delay ?later = 6"
    by (simp_all add: new_publisher_def)
  have v: "valid_datetime (now_sgt ?env)"
    by code_simp
  have r: "representable (seconds_of (now_sgt ?env) + 3600 * hours_delay ?later)"
    by code_simp
  have e: "publish_at_of ?env ?later = Inr ''2024-12-28T17:00:00+08:00''"
    by code_simp
  from publish_at_iso8601 [of ?now ?env] n
  have a: "publish_at_of ?env ?now = Inr ''now''"
    by blast
  from publish_at_iso8601 [of ?later ?env] l v r
  obtain s dt where "publish_at_of ?env ?later = Inr s" "read_iso8601 s = Some dt"
    "seconds_of dt = seconds_of (now_sgt ?env) + 3600 * hours_delay ?later"
    by blast
  with e h have "\<exists>dt. read_iso8601 ''2024-12-28T17:00:00+08:00'' = Some dt
          \<and> seconds_of dt = seconds_of (now_sgt ?env) + 3600 * 6"
    by auto
  with a e show ?thesis by blast
qed

end
